theory Spec2Isabelle
  imports Main "HOL-Library.Sublist"
begin

section \<open>JavaScript values\<close>

text \<open>
  Request bodies, messages, parts and artifacts are plain JSON in the source. \<open>JNum n\<close> is
  the double whose value is the integer \<open>n\<close> (a number with a fraction has no value
  here), \<open>JInf\<close> is \<open>Infinity\<close> (\<open>JInf True\<close> the negative one), which \<open>JSON.parse\<close>
  gives for a literal beyond the range and an addition can produce, and \<open>JNaN\<close> is the
  other number an addition can produce. \<open>JUndef\<close> is what reading a missing property
  gives. An object is its list of key/value pairs, the first entry of a key being the one
  a lookup sees.
\<close>

datatype jsval =
    JUndef
  | JNull
  | JBool bool
  | JNum int
  | JNaN
  | JInf bool
  | JStr string
  | JArr "jsval list"
  | JObj "(string \<times> jsval) list"

text \<open>\<open>v.k\<close> for a value that is neither undefined nor null (none of the keys the source
  reads is a prototype property, so only objects have them).\<close>

fun get_prop :: "jsval \<Rightarrow> string \<Rightarrow> jsval" where
  "get_prop (JObj kvs) k = (case map_of kvs k of Some v \<Rightarrow> v | None \<Rightarrow> JUndef)"
| "get_prop _ k = JUndef"

text \<open>Reading a property of undefined or null throws a TypeError.\<close>

fun nullish :: "jsval \<Rightarrow> bool" where
  "nullish JUndef = True"
| "nullish JNull = True"
| "nullish _ = False"

text \<open>The truthiness test of \<open>if (v)\<close>, \<open>!v\<close> and \<open>v || w\<close>.\<close>

fun truthy :: "jsval \<Rightarrow> bool" where
  "truthy JUndef = False"
| "truthy JNull = False"
| "truthy (JBool b) = b"
| "truthy (JNum n) = (n \<noteq> 0)"
| "truthy JNaN = False"
| "truthy (JInf _) = True"
| "truthy (JStr s) = (s \<noteq> [])"
| "truthy (JArr _) = True"
| "truthy (JObj _) = True"

definition js_or :: "jsval \<Rightarrow> jsval \<Rightarrow> jsval" where
  "js_or v w = (if truthy v then v else w)"

text \<open>\<open>xs[0]\<close> for a value that is neither undefined nor null.\<close>

fun index0 :: "jsval \<Rightarrow> jsval" where
  "index0 (JArr (x # _)) = x"
| "index0 (JStr (c # _)) = JStr [c]"
| "index0 (JObj kvs) = get_prop (JObj kvs) ''0''"
| "index0 _ = JUndef"

subsection \<open>Errors\<close>

text \<open>The TypeErrors the code can raise: a property read of undefined or null, a
  destructuring of undefined or null (with the first property and the name of the
  variable), a call of something that is not a function, and the conversion to a
  primitive of an object that has no callable \<open>toString\<close>.\<close>

datatype fault =
    CannotRead jsval string
  | CannotDestructure jsval string string
  | NotFunction string
  | CannotConvert

text \<open>The source only interpolates \<open>error.message\<close>; its text is the engine's. Every
  function below takes it as a parameter. This is the wording of Node's engine, for the
  places where a concrete one is needed.\<close>

fun node_error_message :: "fault \<Rightarrow> string" where
  "node_error_message (CannotRead v k) =
     ''Cannot read properties of '' @ (if v = JNull then ''null'' else ''undefined'')
       @ '' (reading '' @ [CHR 0x27] @ k @ [CHR 0x27] @ '')''"
| "node_error_message (CannotDestructure v k x) =
     ''Cannot destructure property '' @ [CHR 0x27] @ k @ [CHR 0x27] @ '' of '' @ [CHR 0x27] @ x @ [CHR 0x27]
       @ '' as it is '' @ (if v = JNull then ''null'' else ''undefined'') @ ''.''"
| "node_error_message (NotFunction f) = f @ '' is not a function''"
| "node_error_message CannotConvert = ''Cannot convert object to primitive value''"

subsection \<open>Numbers\<close>

fun show_nat :: "nat \<Rightarrow> string" where
  "show_nat n =
     (if n < 10 then [''0123456789'' ! n]
      else show_nat (n div 10) @ [''0123456789'' ! (n mod 10)])"

declare show_nat.simps [simp del]

fun bitlen :: "nat \<Rightarrow> nat" where
  "bitlen n = (if n = 0 then 0 else Suc (bitlen (n div 2)))"

declare bitlen.simps [simp del]

text \<open>The double nearest to a natural number, ties to the even mantissa of 53 bits. A
  result of \<open>2 ^ 1024\<close> or more stands for the overflow to \<open>Infinity\<close>.\<close>

definition round_double :: "nat \<Rightarrow> nat" where
  "round_double m =
     (if bitlen m \<le> 53 then m
      else
        let sh = bitlen m - 53; q = m div 2 ^ sh; r = m mod 2 ^ sh; half = 2 ^ (sh - 1)
        in (if half < r \<or> (r = half \<and> odd q) then q + 1 else q) * 2 ^ sh)"

definition number_of :: "int \<Rightarrow> jsval" where
  "number_of i =
     (let m = round_double (nat \<bar>i\<bar>) in
      if 2 ^ 1024 \<le> m then JInf (i < 0)
      else JNum (if i < 0 then - int m else int m))"

text \<open>
  \<open>Number::toString\<close> of a double \<open>x\<close> that is a natural number: the decimal number with
  the fewest significant digits that still reads back as \<open>x\<close>, the nearest to \<open>x\<close> when
  there are several (the even one on a tie). \<open>shortest_at x e\<close> tries the multiples of
  \<open>10 ^ e\<close> next to \<open>x\<close>, from the coarsest power down. Up to 21 digits are written out,
  more in exponent form.
\<close>

fun shortest_at :: "nat \<Rightarrow> nat \<Rightarrow> nat" where
  "shortest_at x 0 = x"
| "shortest_at x (Suc e) =
     (let p = 10 ^ Suc e; lo = (x div p) * p; hi = lo + p;
          oklo = (round_double lo = x); okhi = (round_double hi = x)
      in if oklo \<and> okhi then
           (if x - lo < hi - x then lo
            else if hi - x < x - lo then hi
            else if even (x div p) then lo else hi)
         else if oklo then lo
         else if okhi then hi
         else shortest_at x e)"

definition strip_zeros :: "string \<Rightarrow> string" where
  "strip_zeros s = rev (dropWhile (\<lambda>c. c = CHR ''0'') (rev s))"

definition nat_text :: "nat \<Rightarrow> string" where
  "nat_text x =
     (let c = show_nat (shortest_at x (length (show_nat x) - 1)); n = length c
      in if n \<le> 21 then c
         else (case strip_zeros c of
                 [] \<Rightarrow> c
               | [d] \<Rightarrow> [d]
               | d # ds \<Rightarrow> d # CHR ''.'' # ds) @ ''e+'' @ show_nat (n - 1))"

definition number_text :: "int \<Rightarrow> string" where
  "number_text i = (if i < 0 then CHR ''-'' # nat_text (nat (- i)) else nat_text (nat i))"

subsection \<open>String conversion and \<open>+\<close>\<close>

fun join_comma :: "string list \<Rightarrow> string" where
  "join_comma [] = []"
| "join_comma [s] = s"
| "join_comma (s # t # ss) = s @ '','' @ join_comma (t # ss)"

text \<open>The conversions of the elements of an array, from the left; the first throw ends
  them.\<close>

fun collect :: "(fault + string) list \<Rightarrow> fault + string list" where
  "collect [] = Inr []"
| "collect (Inl e # rs) = Inl e"
| "collect (Inr s # rs) = (case collect rs of Inl e \<Rightarrow> Inl e | Inr ss \<Rightarrow> Inr (s # ss))"

text \<open>
  \<open>String(v)\<close>, as a template literal applies it, and the conversion of an operand of
  \<open>+\<close> to a primitive. A parsed object converts through \<open>Object.prototype.toString\<close>
  unless it has a key \<open>toString\<close> of its own, whose value is never callable: then both
  throw. An array joins the conversions of its elements.
\<close>

fun js_to_string :: "jsval \<Rightarrow> fault + string" where
  "js_to_string JUndef = Inr ''undefined''"
| "js_to_string JNull = Inr ''null''"
| "js_to_string (JBool b) = Inr (if b then ''true'' else ''false'')"
| "js_to_string (JNum n) = Inr (number_text n)"
| "js_to_string JNaN = Inr ''NaN''"
| "js_to_string (JInf neg) = Inr (if neg then ''-Infinity'' else ''Infinity'')"
| "js_to_string (JStr s) = Inr s"
| "js_to_string (JArr xs) =
     (case collect (map (\<lambda>x. if nullish x then Inr [] else js_to_string x) xs) of
        Inl e \<Rightarrow> Inl e
      | Inr ss \<Rightarrow> Inr (join_comma ss))"
| "js_to_string (JObj kvs) =
     (if map_of kvs ''toString'' = None then Inr ''[object Object]'' else Inl CannotConvert)"

fun to_primitive :: "jsval \<Rightarrow> fault + jsval" where
  "to_primitive (JArr xs) =
     (case js_to_string (JArr xs) of Inl e \<Rightarrow> Inl e | Inr s \<Rightarrow> Inr (JStr s))"
| "to_primitive (JObj kvs) =
     (case js_to_string (JObj kvs) of Inl e \<Rightarrow> Inl e | Inr s \<Rightarrow> Inr (JStr s))"
| "to_primitive v = Inr v"

fun is_string :: "jsval \<Rightarrow> bool" where
  "is_string (JStr _) = True"
| "is_string _ = False"

text \<open>\<open>String(v)\<close> of a primitive, which cannot throw.\<close>

definition prim_text :: "jsval \<Rightarrow> string" where
  "prim_text v = (case js_to_string v of Inl e \<Rightarrow> [] | Inr s \<Rightarrow> s)"

text \<open>\<open>Number(v)\<close> for a primitive that is not a string.\<close>

fun to_number :: "jsval \<Rightarrow> jsval" where
  "to_number JNull = JNum 0"
| "to_number (JBool b) = JNum (if b then 1 else 0)"
| "to_number (JNum n) = JNum n"
| "to_number (JInf neg) = JInf neg"
| "to_number _ = JNaN"

text \<open>The sum of two numbers, rounded to a double.\<close>

fun number_add :: "jsval \<Rightarrow> jsval \<Rightarrow> jsval" where
  "number_add (JNum x) (JNum y) = number_of (x + y)"
| "number_add (JInf a) (JInf b) = (if a = b then JInf a else JNaN)"
| "number_add (JInf a) (JNum y) = JInf a"
| "number_add (JNum x) (JInf b) = JInf b"
| "number_add _ _ = JNaN"

text \<open>\<open>a + b\<close>: both operands become primitives, the left one first; with a string among
  them the result is the concatenation, otherwise the sum.\<close>

definition js_add :: "jsval \<Rightarrow> jsval \<Rightarrow> fault + jsval" where
  "js_add a b =
     (case to_primitive a of
        Inl e \<Rightarrow> Inl e
      | Inr pa \<Rightarrow>
          (case to_primitive b of
             Inl e \<Rightarrow> Inl e
           | Inr pb \<Rightarrow>
               if is_string pa \<or> is_string pb then Inr (JStr (prim_text pa @ prim_text pb))
               else Inr (number_add (to_number pa) (to_number pb))))"

section \<open>Task records and the task map\<close>

record status =
  st_state :: string
  st_timestamp :: nat
  st_message :: "jsval option"

record task =
  task_id :: string
  task_status :: status
  task_artifacts :: "jsval list"

record taskData =
  td_task :: task
  td_history :: "jsval list"

type_synonym store = "string \<rightharpoonup> taskData"

text \<open>\<open>tasks.get(key)\<close>: the keys of the map are the uuid strings, so a key of any other
  type finds nothing.\<close>

fun store_get :: "store \<Rightarrow> jsval \<Rightarrow> taskData option" where
  "store_get tbl (JStr k) = tbl k"
| "store_get tbl _ = None"

definition state_of :: "taskData \<Rightarrow> string" where
  "state_of d = st_state (task_status (td_task d))"

definition artifacts_of :: "taskData \<Rightarrow> jsval list" where
  "artifacts_of d = task_artifacts (td_task d)"

definition text_part :: "string \<Rightarrow> jsval" where
  "text_part t = JObj [(''type'', JStr ''text''), (''text'', JStr t)]"

definition data_part :: "jsval \<Rightarrow> jsval" where
  "data_part d = JObj [(''type'', JStr ''data''), (''data'', d)]"

definition agent_message :: "string \<Rightarrow> jsval" where
  "agent_message t = JObj [(''role'', JStr ''agent''), (''parts'', JArr [text_part t])]"

section \<open>The update sink\<close>

record update =
  upd_state :: "string option"
  upd_message :: "jsval option"
  upd_artifacts :: "jsval list option"

text \<open>The three \<open>if\<close> statements of \<open>updateCallback\<close>, on the record it has found.
  \<open>now\<close> is the clock reading of \<open>new Date()\<close>.\<close>

definition merge_update :: "nat \<Rightarrow> update \<Rightarrow> taskData \<Rightarrow> taskData" where
  "merge_update now u taskData =
     (let d1 = (case upd_state u of
                  Some s \<Rightarrow>
                    if s \<noteq> [] then
                      taskData\<lparr>td_task := (td_task taskData)\<lparr>task_status :=
                        (task_status (td_task taskData))\<lparr>st_state := s, st_timestamp := now\<rparr>\<rparr>\<rparr>
                    else taskData
                | None \<Rightarrow> taskData);
          d2 = (case upd_message u of
                  Some m \<Rightarrow>
                    if truthy m then
                      d1\<lparr>td_history := td_history d1 @ [m],
                         td_task := (td_task d1)\<lparr>task_status :=
                           (task_status (td_task d1))\<lparr>st_message := Some m\<rparr>\<rparr>\<rparr>
                    else d1
                | None \<Rightarrow> d1)
      in (case upd_artifacts u of
            Some arts \<Rightarrow>
              d2\<lparr>td_task := (td_task d2)\<lparr>task_artifacts := task_artifacts (td_task d2) @ arts\<rparr>\<rparr>
          | None \<Rightarrow> d2))"

text \<open>
  \<open>updateCallback\<close> of \<open>executeTask\<close>, closed over \<open>taskId\<close>. The first component is the
  value its promise resolves with: \<open>undefined\<close> on the early return and at the end of the
  body alike. The record is changed in place, under the key it has.
\<close>

definition updateCallback :: "string \<Rightarrow> nat \<Rightarrow> update \<Rightarrow> store \<Rightarrow> jsval \<times> store" where
  "updateCallback taskId now u tbl =
     (case tbl taskId of
        None \<Rightarrow> (JUndef, tbl)
      | Some taskData \<Rightarrow> (JUndef, tbl(taskId \<mapsto> merge_update now u taskData)))"

text \<open>The cancellation probe of the context.\<close>

definition isCancelled :: "string \<Rightarrow> store \<Rightarrow> bool" where
  "isCancelled taskId tbl =
     (case tbl taskId of None \<Rightarrow> False | Some current \<Rightarrow> state_of current = ''canceled'')"

section \<open>The task handler\<close>

text \<open>
  An async function runs synchronously up to its first \<open>await\<close>. The handler's effects are
  the calls of the sink, so its run is the list of what it does between suspensions:
  \<open>Emit u\<close> is the call \<open>updateCallback(u)\<close> (which has no \<open>await\<close> and so runs at once),
  \<open>Tick\<close> a resumption through the microtask queue (the \<open>await\<close> of an already settled
  promise), \<open>Timer ms\<close> the \<open>await\<close> of a \<open>setTimeout\<close> promise, and \<open>Throw e\<close> the end of
  the run by an error.
\<close>

datatype action = Emit update | Tick | Timer nat | Throw fault

definition working_update :: update where
  "working_update =
     \<lparr>upd_state = Some ''working'',
      upd_message = Some (agent_message ''Calculating sum...''),
      upd_artifacts = None\<rparr>"

definition calculation_result :: "jsval \<Rightarrow> jsval" where
  "calculation_result result =
     JObj [(''name'', JStr ''calculation_result''),
           (''parts'', JArr [data_part (JObj [(''result'', result)])])]"

text \<open>The update of the completion; \<open>t\<close> is the text of \<open>result\<close>.\<close>

definition completed_update :: "string \<Rightarrow> jsval \<Rightarrow> update" where
  "completed_update t result =
     \<lparr>upd_state = Some ''completed'',
      upd_message = Some (agent_message (''The sum is '' @ t)),
      upd_artifacts = Some [calculation_result result]\<rparr>"

definition failed_update :: "string \<Rightarrow> update" where
  "failed_update t =
     \<lparr>upd_state = Some ''failed'', upd_message = Some (agent_message t), upd_artifacts = None\<rparr>"

text \<open>\<open>parts.find(p => p.type === 'data')\<close> on an array.\<close>

fun find_data :: "jsval list \<Rightarrow> fault + jsval" where
  "find_data [] = Inr JUndef"
| "find_data (p # ps) =
     (if nullish p then Inl (CannotRead p ''type'')
      else if get_prop p ''type'' = JStr ''data'' then Inr p
      else find_data ps)"

text \<open>The first two statements of \<open>handleTask\<close>: \<open>dataPart?.data || {}\<close>.\<close>

definition message_params :: "jsval \<Rightarrow> fault + jsval" where
  "message_params userMessage =
     (if nullish userMessage then Inl (CannotRead userMessage ''parts'')
      else (case get_prop userMessage ''parts'' of
              JArr ps \<Rightarrow>
                (case find_data ps of
                   Inl e \<Rightarrow> Inl e
                 | Inr dataPart \<Rightarrow>
                     Inr (js_or (if nullish dataPart then JUndef else get_prop dataPart ''data'')
                                (JObj [])))
            | parts \<Rightarrow>
                if nullish parts then Inl (CannotRead parts ''find'')
                else Inl (NotFunction ''userMessage.parts.find'')))"

record task_context =
  ctx_taskId :: string
  ctx_skillId :: jsval
  ctx_userMessage :: jsval

text \<open>
  \<open>handleTask\<close>. The argument of a call of the sink is evaluated before the call, so a
  template literal or a sum that throws ends the run before the update it was for.
\<close>

definition handleTask :: "task_context \<Rightarrow> action list" where
  "handleTask ctx =
     (case message_params (ctx_userMessage ctx) of
        Inl e \<Rightarrow> [Throw e]
      | Inr params \<Rightarrow>
          if ctx_skillId ctx = JStr ''add'' then
            [Emit working_update, Tick, Timer 1000] @
            (case js_add (get_prop params ''a'') (get_prop params ''b'') of
               Inl e \<Rightarrow> [Throw e]
             | Inr result \<Rightarrow>
                 (case js_to_string result of
                    Inl e \<Rightarrow> [Throw e]
                  | Inr t \<Rightarrow> [Emit (completed_update t result), Tick]))
          else
            (case js_to_string (ctx_skillId ctx) of
               Inl e \<Rightarrow> [Throw e]
             | Inr t \<Rightarrow> [Emit (failed_update (''Unknown skill: '' @ t)), Tick]))"

text \<open>\<open>try { await ... } catch (error) { ... }\<close>: the throw of the awaited run is a
  rejected promise, so the \<open>catch\<close> block runs after a suspension.\<close>

fun try_catch :: "(fault \<Rightarrow> action list) \<Rightarrow> action list \<Rightarrow> action list" where
  "try_catch h [] = []"
| "try_catch h (Throw e # rest) = Tick # h e"
| "try_catch h (Emit u # rest) = Emit u # try_catch h rest"
| "try_catch h (Tick # rest) = Tick # try_catch h rest"
| "try_catch h (Timer ms # rest) = Timer ms # try_catch h rest"

text \<open>
  \<open>executeTask\<close>. \<open>error_message\<close> is the engine's text of \<open>error.message\<close>. Without a
  record under \<open>taskId\<close> the function itself rejects before the \<open>try\<close> and does nothing
  (the dispatcher stores the record first).
\<close>

definition executeTask :: "(fault \<Rightarrow> string) \<Rightarrow> string \<Rightarrow> jsval \<Rightarrow> jsval \<Rightarrow> store \<Rightarrow> action list" where
  "executeTask error_message taskId skill message tbl =
     (case tbl taskId of
        None \<Rightarrow> []
      | Some _ \<Rightarrow>
          try_catch (\<lambda>e. [Emit (failed_update (''Error: '' @ error_message e)), Tick])
            (handleTask \<lparr>ctx_taskId = taskId, ctx_skillId = skill, ctx_userMessage = message\<rparr>))"

section \<open>The server\<close>

text \<open>
  The state between two turns of the event loop: the task map, and the suspended task runs
  that wait for their \<open>setTimeout\<close>, each with the actions left after the wait.
\<close>

record server =
  tasks :: store
  timers :: "(string \<times> action list) list"

text \<open>The part of a run that happens inside the call \<open>executeTask(...)\<close>, before control
  is back in the caller: up to the first suspension.\<close>

fun run_sync :: "string \<Rightarrow> nat \<Rightarrow> action list \<Rightarrow> store \<Rightarrow> action list \<times> store" where
  "run_sync taskId now [] tbl = ([], tbl)"
| "run_sync taskId now (Emit u # rest) tbl =
     run_sync taskId now rest (snd (updateCallback taskId now u tbl))"
| "run_sync taskId now (Tick # rest) tbl = (Tick # rest, tbl)"
| "run_sync taskId now (Timer ms # rest) tbl = (Timer ms # rest, tbl)"
| "run_sync taskId now (Throw e # rest) tbl = ([], tbl)"

text \<open>A resumed run: it goes on through the microtask queue, which drains before the next
  request or timer is served, until it ends or waits for a timer. (A throw that no
  \<open>catch\<close> takes ends the run; \<open>executeTask\<close> leaves none.)\<close>

fun resume :: "string \<Rightarrow> nat \<Rightarrow> action list \<Rightarrow> server \<Rightarrow> server" where
  "resume taskId now [] s = s"
| "resume taskId now (Emit u # rest) s =
     resume taskId now rest (s\<lparr>tasks := snd (updateCallback taskId now u (tasks s))\<rparr>)"
| "resume taskId now (Tick # rest) s = resume taskId now rest s"
| "resume taskId now (Timer ms # rest) s = s\<lparr>timers := timers s @ [(taskId, rest)]\<rparr>"
| "resume taskId now (Throw e # rest) s = s"

text \<open>The \<open>i\<close>-th pending timer fires.\<close>

definition fire_timer :: "nat \<Rightarrow> nat \<Rightarrow> server \<Rightarrow> server" where
  "fire_timer now i s =
     (if i < length (timers s) then
        resume (fst (timers s ! i)) now (snd (timers s ! i))
          (s\<lparr>timers := take i (timers s) @ drop (Suc i) (timers s)\<rparr>)
      else s)"

subsection \<open>Requests and responses\<close>

record request =
  api_key :: "string option"
  body :: jsval

record task_view =
  tv_task :: task
  tv_history :: "jsval list option"

datatype payload = Result task_view | Error int string "string option"

text \<open>A response: the HTTP status and the envelope \<open>{jsonrpc, result | error, id}\<close>. An
  \<open>id\<close> that is \<open>JUndef\<close> is a key that \<open>JSON.stringify\<close> leaves out.\<close>

record response =
  rsp_status :: nat
  rsp_payload :: payload
  rsp_id :: jsval

text \<open>The middleware: \<open>Some\<close> is the response it sends itself, \<open>None\<close> the call of
  \<open>next()\<close>.\<close>

definition authenticateApiKey :: "request \<Rightarrow> response option" where
  "authenticateApiKey req =
     (if (case api_key req of None \<Rightarrow> True | Some apiKey \<Rightarrow> apiKey = [] \<or> apiKey \<noteq> ''test-api-key'')
      then Some \<lparr>rsp_status = 401,
                 rsp_payload = Error (- 32001) ''Authentication failed'' None,
                 rsp_id = js_or (if nullish (body req) then JUndef else get_prop (body req) ''id'')
                                JNull\<rparr>
      else None)"

definition internal_error :: "(fault \<Rightarrow> string) \<Rightarrow> fault \<Rightarrow> jsval \<Rightarrow> response" where
  "internal_error error_message e ident =
     \<lparr>rsp_status = 500,
      rsp_payload = Error (- 32603) ''Internal error'' (Some (error_message e)),
      rsp_id = ident\<rparr>"

text \<open>
  The \<open>tasks/send\<close> case. The object \<open>task\<close> that goes into the response is the one stored
  in the map, so the response shows it as it is when \<open>res.json\<close> serialises it: after the
  synchronous part of \<open>executeTask\<close>.
\<close>

definition initial_task :: "string \<Rightarrow> nat \<Rightarrow> task" where
  "initial_task taskId now =
     \<lparr>task_id = taskId,
      task_status = \<lparr>st_state = ''submitted'', st_timestamp = now, st_message = None\<rparr>,
      task_artifacts = []\<rparr>"

definition tasks_send ::
  "(fault \<Rightarrow> string) \<Rightarrow> nat \<Rightarrow> string \<Rightarrow> jsval \<Rightarrow> jsval \<Rightarrow> server \<Rightarrow> response option \<times> server" where
  "tasks_send error_message now taskId params ident s =
     (if nullish params then
        (Some (internal_error error_message (CannotDestructure params ''skill'' ''params'') ident), s)
      else
        let skill = get_prop params ''skill'';
            message = get_prop params ''message'';
            task = initial_task taskId now;
            tbl = (tasks s)(taskId \<mapsto> \<lparr>td_task = task, td_history = [message]\<rparr>);
            run = run_sync taskId now (executeTask error_message taskId skill message tbl) tbl;
            result = (case snd run taskId of Some d \<Rightarrow> td_task d | None \<Rightarrow> task)
        in (Some \<lparr>rsp_status = 200,
                   rsp_payload = Result \<lparr>tv_task = result, tv_history = None\<rparr>,
                   rsp_id = ident\<rparr>,
            resume taskId now (fst run) (s\<lparr>tasks := snd run\<rparr>)))"

definition tasks_get ::
  "(fault \<Rightarrow> string) \<Rightarrow> jsval \<Rightarrow> jsval \<Rightarrow> server \<Rightarrow> response option \<times> server" where
  "tasks_get error_message params ident s =
     (if nullish params then (Some (internal_error error_message (CannotDestructure params ''taskId'' ''params'') ident), s)
      else
        let taskId = get_prop params ''taskId'';
            includeHistory = get_prop params ''includeHistory''
        in (case store_get (tasks s) taskId of
              None \<Rightarrow>
                (Some \<lparr>rsp_status = 404,
                       rsp_payload = Error (- 32002) ''Task not found'' None,
                       rsp_id = ident\<rparr>, s)
            | Some taskData \<Rightarrow>
                (Some \<lparr>rsp_status = 200,
                       rsp_payload = Result
                         \<lparr>tv_task = td_task taskData,
                          tv_history = (if truthy includeHistory then Some (td_history taskData)
                                        else None)\<rparr>,
                       rsp_id = ident\<rparr>, s)))"

text \<open>
  The handler of \<open>POST /api\<close>. \<open>uuid\<close> is what \<open>uuidv4()\<close> returns. The destructuring of
  \<open>req.body\<close> is outside the \<open>try\<close>: on a missing body the handler's promise rejects
  and the handler writes no envelope (\<open>None\<close>; what the client then gets, if anything, is
  the framework's own answer).
\<close>

definition api_handler ::
  "(fault \<Rightarrow> string) \<Rightarrow> nat \<Rightarrow> string \<Rightarrow> request \<Rightarrow> server \<Rightarrow> response option \<times> server" where
  "api_handler error_message now uuid req s =
     (if nullish (body req) then (None, s)
      else
        let method = get_prop (body req) ''method'';
            params = get_prop (body req) ''params'';
            ident = get_prop (body req) ''id''
        in if method = JStr ''tasks/send'' then tasks_send error_message now uuid params ident s
           else if method = JStr ''tasks/get'' then tasks_get error_message params ident s
           else (Some \<lparr>rsp_status = 404,
                       rsp_payload = Error (- 32601) ''Method not found'' None,
                       rsp_id = ident\<rparr>, s))"

definition post_api ::
  "(fault \<Rightarrow> string) \<Rightarrow> nat \<Rightarrow> string \<Rightarrow> request \<Rightarrow> server \<Rightarrow> response option \<times> server" where
  "post_api error_message now uuid req s =
     (case authenticateApiKey req of
        Some r \<Rightarrow> (Some r, s)
      | None \<Rightarrow> api_handler error_message now uuid req s)"

subsection \<open>Runs of the server\<close>

text \<open>
  One turn of the event loop: a request is served, with a \<open>uuid\<close> that no stored task has
  (the generator's guarantee), or a pending timer fires. Timers may fire in any order.
\<close>

inductive step :: "(fault \<Rightarrow> string) \<Rightarrow> server \<Rightarrow> server \<Rightarrow> bool"
  for error_message :: "fault \<Rightarrow> string" where
  request: "uuid \<notin> dom (tasks s) \<Longrightarrow> post_api error_message now uuid req s = (r, s') \<Longrightarrow>
            step error_message s s'"
| timer: "i < length (timers s) \<Longrightarrow> step error_message s (fire_timer now i s)"

definition server_start :: server where
  "server_start = \<lparr>tasks = Map.empty, timers = []\<rparr>"

inductive reachable :: "(fault \<Rightarrow> string) \<Rightarrow> server \<Rightarrow> bool"
  for error_message :: "fault \<Rightarrow> string" where
  reach_start: "reachable error_message server_start"
| reach_step: "reachable error_message s \<Longrightarrow> step error_message s s' \<Longrightarrow> reachable error_message s'"

section \<open>The clients\<close>

text \<open>The request of \<open>sendRequest\<close> (its \<open>id\<close> is the clock reading as a string) and the
  message of \<open>A2AClient.sendTask\<close>.\<close>

definition rpc_request :: "string \<Rightarrow> string \<Rightarrow> jsval \<Rightarrow> string \<Rightarrow> request" where
  "rpc_request apiKey method params ident =
     \<lparr>api_key = Some apiKey,
      body = JObj [(''jsonrpc'', JStr ''2.0''), (''method'', JStr method),
                   (''params'', params), (''id'', JStr ident)]\<rparr>"

definition sendTask_request :: "string \<Rightarrow> string \<Rightarrow> jsval \<Rightarrow> string \<Rightarrow> request" where
  "sendTask_request apiKey skillId data ident =
     rpc_request apiKey ''tasks/send''
       (JObj [(''skill'', JStr skillId),
              (''message'', JObj [(''role'', JStr ''user''),
                                  (''parts'', JArr [text_part (''Please execute skill: '' @ skillId),
                                                    data_part data])])])
       ident"

definition getTask_request :: "string \<Rightarrow> string \<Rightarrow> bool \<Rightarrow> string \<Rightarrow> request" where
  "getTask_request apiKey taskId includeHistory ident =
     rpc_request apiKey ''tasks/get''
       (JObj [(''taskId'', JStr taskId), (''includeHistory'', JBool includeHistory)])
       ident"

datatype client_error = Error_msg string | TypeError fault

text \<open>What \<open>sendRequest\<close> makes of the response it has read.\<close>

definition sendRequest_result :: "response \<Rightarrow> client_error + task_view" where
  "sendRequest_result r =
     (case rsp_payload r of
        Error code msg extra \<Rightarrow> Inl (Error_msg (''RPC Error: '' @ msg))
      | Result v \<Rightarrow> Inr v)"

text \<open>\<open>task.status.message?.parts[0]?.text\<close>\<close>

definition status_text :: "task_view \<Rightarrow> fault + jsval" where
  "status_text v =
     (case st_message (task_status (tv_task v)) of
        None \<Rightarrow> Inr JUndef
      | Some m \<Rightarrow>
          if nullish m then Inr JUndef
          else if nullish (get_prop m ''parts'') then Inl (CannotRead (get_prop m ''parts'') ''0'')
          else if nullish (index0 (get_prop m ''parts'')) then Inr JUndef
          else Inr (get_prop (index0 (get_prop m ''parts'')) ''text''))"

text \<open>The message of the error \<open>A2AClient\<close> throws for a task that failed:
  \<open>`Task failed: ${... || 'Unknown error'}`\<close>.\<close>

definition failure_message :: "task_view \<Rightarrow> fault + string" where
  "failure_message v =
     (case status_text v of
        Inl f \<Rightarrow> Inl f
      | Inr t \<Rightarrow>
          (case js_to_string (js_or t (JStr ''Unknown error'')) of
             Inl f \<Rightarrow> Inl f
           | Inr s \<Rightarrow> Inr (''Task failed: '' @ s)))"

definition terminalStates :: "string list" where
  "terminalStates = [''completed'', ''failed'', ''canceled'', ''rejected'']"

text \<open>
  \<open>A2AClient.waitForCompletion\<close>. The environment of the loop is the list of its polls:
  the clock reading at the head of an iteration and the response \<open>getTask\<close> reads in it
  (the sleep of \<open>pollIntervalMs\<close> shows in the clock readings only). \<open>None\<close>: the loop is
  still running when the list ends.
\<close>

fun waitForCompletion ::
  "string \<Rightarrow> int \<Rightarrow> int \<Rightarrow> int \<Rightarrow> (int \<times> response) list \<Rightarrow> (client_error + task_view) option" where
  "waitForCompletion taskId maxWaitMs pollIntervalMs startTime [] = None"
| "waitForCompletion taskId maxWaitMs pollIntervalMs startTime ((now, r) # polls) =
     (if now - startTime > maxWaitMs then
        Some (Inl (Error_msg (''Task '' @ taskId @ '' did not complete within ''
                               @ number_text maxWaitMs @ ''ms'')))
      else
        (case sendRequest_result r of
           Inl e \<Rightarrow> Some (Inl e)
         | Inr task \<Rightarrow>
             if st_state (task_status (tv_task task)) \<in> set terminalStates then
               (if st_state (task_status (tv_task task)) = ''failed''
                   \<or> st_state (task_status (tv_task task)) = ''rejected'' then
                  (case failure_message task of
                     Inl f \<Rightarrow> Some (Inl (TypeError f))
                   | Inr m \<Rightarrow> Some (Inl (Error_msg m)))
                else Some (Inr task))
             else waitForCompletion taskId maxWaitMs pollIntervalMs startTime polls))"

text \<open>The status text in the line \<open>BlogClient\<close> logs at every poll:
  \<open>`... ${... || ''}`\<close>.\<close>

definition blog_log :: "task_view \<Rightarrow> fault + string" where
  "blog_log v =
     (case status_text v of
        Inl f \<Rightarrow> Inl f
      | Inr t \<Rightarrow> js_to_string (js_or t (JStr [])))"

text \<open>The message of the error \<open>BlogClient\<close> throws for a task that failed:
  \<open>`Task failed: ${...}`\<close>, without a default.\<close>

definition blog_failure_message :: "task_view \<Rightarrow> fault + string" where
  "blog_failure_message v =
     (case status_text v of
        Inl f \<Rightarrow> Inl f
      | Inr t \<Rightarrow>
          (case js_to_string t of
             Inl f \<Rightarrow> Inl f
           | Inr s \<Rightarrow> Inr (''Task failed: '' @ s)))"

text \<open>\<open>BlogClient.waitForCompletion\<close>: it logs the status text at every poll, has three
  terminal states and throws on \<open>failed\<close> only.\<close>

fun blog_waitForCompletion ::
  "string \<Rightarrow> int \<Rightarrow> int \<Rightarrow> (int \<times> response) list \<Rightarrow> (client_error + task_view) option" where
  "blog_waitForCompletion taskId maxWaitMs startTime [] = None"
| "blog_waitForCompletion taskId maxWaitMs startTime ((now, r) # polls) =
     (if now - startTime > maxWaitMs then
        Some (Inl (Error_msg (''Task timeout after '' @ number_text maxWaitMs @ ''ms'')))
      else
        (case sendRequest_result r of
           Inl e \<Rightarrow> Some (Inl e)
         | Inr task \<Rightarrow>
             (case blog_log task of
                Inl f \<Rightarrow> Some (Inl (TypeError f))
              | Inr line \<Rightarrow>
                  if st_state (task_status (tv_task task)) \<in> set [''completed'', ''failed'', ''canceled''] then
                    (if st_state (task_status (tv_task task)) = ''failed'' then
                       (case blog_failure_message task of
                          Inl f \<Rightarrow> Some (Inl (TypeError f))
                        | Inr m \<Rightarrow> Some (Inl (Error_msg m)))
                     else Some (Inr task))
                  else blog_waitForCompletion taskId maxWaitMs startTime polls)))"

section \<open>The state graph\<close>

text \<open>The transitions as the specification lists them: from \<open>submitted\<close> to \<open>working\<close> or
  \<open>failed\<close>, from \<open>working\<close> to \<open>working\<close>, \<open>completed\<close> or \<open>failed\<close>, and from any
  non-terminal state to \<open>canceled\<close>.\<close>

definition spec_transition :: "string \<Rightarrow> string \<Rightarrow> bool" where
  "spec_transition a b =
     ((a = ''submitted'' \<and> b = ''working'') \<or>
      (a = ''working'' \<and> b = ''working'') \<or>
      (a = ''working'' \<and> b = ''completed'') \<or>
      (a = ''working'' \<and> b = ''failed'') \<or>
      (a = ''submitted'' \<and> b = ''failed'') \<or>
      (a \<notin> set terminalStates \<and> b = ''canceled''))"

text \<open>The updates of a run, in the order of their emission, and its waits.\<close>

fun emitted :: "action list \<Rightarrow> update list" where
  "emitted [] = []"
| "emitted (Emit u # rest) = u # emitted rest"
| "emitted (Tick # rest) = emitted rest"
| "emitted (Timer ms # rest) = emitted rest"
| "emitted (Throw e # rest) = []"

fun timer_waits :: "action list \<Rightarrow> nat list" where
  "timer_waits [] = []"
| "timer_waits (Emit u # rest) = timer_waits rest"
| "timer_waits (Tick # rest) = timer_waits rest"
| "timer_waits (Timer ms # rest) = ms # timer_waits rest"
| "timer_waits (Throw e # rest) = []"

text \<open>The part of a run up to its first wait for a timer: what one turn does of it.\<close>

fun until_timer :: "action list \<Rightarrow> action list" where
  "until_timer [] = []"
| "until_timer (Timer ms # rest) = []"
| "until_timer (Emit u # rest) = Emit u # until_timer rest"
| "until_timer (Tick # rest) = Tick # until_timer rest"
| "until_timer (Throw e # rest) = Throw e # until_timer rest"

text \<open>The states a record goes through when the sink merges a list of updates into it,
  from the state \<open>st\<close>: an update sets the state it carries, when that is not empty.\<close>

fun states_seen :: "string \<Rightarrow> update list \<Rightarrow> string list" where
  "states_seen st [] = []"
| "states_seen st (u # us) =
     (case upd_state u of
        None \<Rightarrow> st # states_seen st us
      | Some x \<Rightarrow> if x \<noteq> [] then x # states_seen x us else st # states_seen st us)"

section \<open>Invariant of the runs\<close>

text \<open>What is left of a run that waits for its timer: the emission of \<open>completed\<close>, or,
  when the sum throws, the \<open>catch\<close> block with its emission of \<open>failed\<close>.\<close>

definition last_leg :: "action list \<Rightarrow> bool" where
  "last_leg rest =
     ((\<exists>t r. rest = [Emit (completed_update t r), Tick]) \<or>
      (\<exists>x. rest = [Tick, Emit (failed_update x), Tick]))"

text \<open>
  Between two turns, every run that waits for its timer belongs to a stored task in state
  \<open>working\<close> without artifacts, and has its last leg left; no task has two waiting runs;
  and every stored task is \<open>working\<close>, \<open>completed\<close> or \<open>failed\<close>.
\<close>

definition pending_ok :: "server \<Rightarrow> bool" where
  "pending_ok s =
     (distinct (map fst (timers s)) \<and>
      (\<forall>(t, rest) \<in> set (timers s).
         (\<exists>d. tasks s t = Some d \<and> state_of d = ''working'' \<and> artifacts_of d = []
              \<and> last_leg rest)) \<and>
      (\<forall>t d. tasks s t = Some d \<longrightarrow>
         state_of d = ''working'' \<or> state_of d = ''completed'' \<or> state_of d = ''failed''))"

text \<open>A task of the scenario: either it is \<open>working\<close> and its run waits to emit the
  result \<open>x\<close> with the text \<open>t\<close>, or it is \<open>completed\<close> with the one artifact of \<open>x\<close>.\<close>

definition settles :: "string \<Rightarrow> string \<Rightarrow> jsval \<Rightarrow> server \<Rightarrow> bool" where
  "settles taskId t x s =
     (case tasks s taskId of
        None \<Rightarrow> False
      | Some d \<Rightarrow>
          (state_of d = ''working'' \<and> artifacts_of d = [] \<and>
           (taskId, [Emit (completed_update t x), Tick]) \<in> set (timers s)) \<or>
          (state_of d = ''completed'' \<and> artifacts_of d = [calculation_result x]))"

text \<open>What a poll can see of a stored task.\<close>

definition stored_state :: "server \<Rightarrow> string \<Rightarrow> string option" where
  "stored_state s taskId = (case tasks s taskId of None \<Rightarrow> None | Some d \<Rightarrow> Some (state_of d))"

definition stored_message :: "server \<Rightarrow> string \<Rightarrow> jsval option" where
  "stored_message s taskId =
     (case tasks s taskId of None \<Rightarrow> None | Some d \<Rightarrow> st_message (task_status (td_task d)))"

definition stored_artifacts :: "server \<Rightarrow> string \<Rightarrow> jsval list option" where
  "stored_artifacts s taskId =
     (case tasks s taskId of None \<Rightarrow> None | Some d \<Rightarrow> Some (artifacts_of d))"

text \<open>The run of the example client against a fresh server: it sends \<open>add\<close> with
  \<open>{a: 5, b: 3}\<close>, and the timer of the task fires.\<close>

definition add_5_3 :: request where
  "add_5_3 = sendTask_request ''test-api-key'' ''add'' (JObj [(''a'', JNum 5), (''b'', JNum 3)]) ''1''"

definition after_send :: server where
  "after_send = snd (post_api node_error_message 0 ''u1'' add_5_3 server_start)"

definition after_timer :: server where
  "after_timer = fire_timer 1000 0 after_send"

definition after_second_send :: server where
  "after_second_send = snd (post_api node_error_message 2000 ''u2'' add_5_3 after_timer)"

text \<open>The record \<open>tasks/send\<close> stores, and the text of the one update of a run whose
  skill is not \<open>add\<close>.\<close>

definition submitted_record :: "string \<Rightarrow> nat \<Rightarrow> jsval \<Rightarrow> taskData" where
  "submitted_record taskId now message =
     \<lparr>td_task = initial_task taskId now, td_history = [message]\<rparr>"

definition failure_text :: "(fault \<Rightarrow> string) \<Rightarrow> jsval \<Rightarrow> jsval \<Rightarrow> string" where
  "failure_text error_message skill message =
     (case message_params message of
        Inl e \<Rightarrow> ''Error: '' @ error_message e
      | Inr p \<Rightarrow>
          (case js_to_string skill of
             Inl e \<Rightarrow> ''Error: '' @ error_message e
           | Inr t \<Rightarrow> ''Unknown skill: '' @ t))"

text \<open>Whether the handler throws before its first update, for a skill that is not
  \<open>add\<close>: then the response of \<open>tasks/send\<close> is written before the \<open>catch\<close> block
  runs.\<close>

definition throws_at_once :: "jsval \<Rightarrow> jsval \<Rightarrow> bool" where
  "throws_at_once skill message =
     (case message_params message of
        Inl e \<Rightarrow> True
      | Inr p \<Rightarrow> (case js_to_string skill of Inl e \<Rightarrow> True | Inr t \<Rightarrow> False))"

text \<open>A \<open>tasks/send\<close> for a skill the agent does not have, with a message without
  \<open>parts\<close>.\<close>

definition subtract_without_parts :: request where
  "subtract_without_parts =
     rpc_request ''test-api-key'' ''tasks/send''
       (JObj [(''skill'', JStr ''subtract''), (''message'', JObj [(''role'', JStr ''user'')])]) ''1''"

text \<open>A \<open>tasks/send\<close> whose skill is an object with a key \<open>toString\<close>, with a message
  whose parts can be searched.\<close>

definition object_skill :: request where
  "object_skill =
     rpc_request ''test-api-key'' ''tasks/send''
       (JObj [(''skill'', JObj [(''toString'', JNum 1)]),
              (''message'', JObj [(''role'', JStr ''user''), (''parts'', JArr [text_part ''hello''])])])
       ''1''"

text \<open>A response of \<open>tasks/get\<close> as a client reads it, for a task in the given state with
  the given status message.\<close>

definition poll_response :: "string \<Rightarrow> string \<Rightarrow> jsval option \<Rightarrow> response" where
  "poll_response taskId st msg =
     \<lparr>rsp_status = 200,
      rsp_payload = Result
        \<lparr>tv_task = \<lparr>task_id = taskId,
                     task_status = \<lparr>st_state = st, st_timestamp = 0, st_message = msg\<rparr>,
                     task_artifacts = []\<rparr>,
         tv_history = None\<rparr>,
      rsp_id = JStr ''1''\<rparr>"

text \<open>The success envelope of \<open>tasks/send\<close>.\<close>

definition ok_response :: "task \<Rightarrow> jsval \<Rightarrow> response" where
  "ok_response t ident = \<lparr>rsp_status = 200, rsp_payload = Result \<lparr>tv_task = t, tv_history = None\<rparr>, rsp_id = ident\<rparr>"


section \<open>Properties\<close>

subsection \<open>The sink and the dispatcher\<close>

lemma updateCallback_resolves: "fst (updateCallback taskId now u tbl) = JUndef"
  by (simp add: updateCallback_def split: option.split)

lemma updateCallback_absent:
  "tbl t = None \<Longrightarrow> snd (updateCallback t now u tbl) = tbl"
  by (simp add: updateCallback_def)

lemma updateCallback_present:
  "tbl t = Some d \<Longrightarrow> snd (updateCallback t now u tbl) = tbl(t \<mapsto> merge_update now u d)"
  by (simp add: updateCallback_def)

lemma merge_working:
  "state_of (merge_update now working_update d) = ''working''"
  "artifacts_of (merge_update now working_update d) = artifacts_of d"
  "td_history (merge_update now working_update d) = td_history d @ [agent_message ''Calculating sum...'']"
  by (simp_all add: merge_update_def working_update_def state_of_def artifacts_of_def agent_message_def)

lemma merge_completed:
  "state_of (merge_update now (completed_update t r) d) = ''completed''"
  "artifacts_of (merge_update now (completed_update t r) d) = artifacts_of d @ [calculation_result r]"
  by (simp_all add: merge_update_def completed_update_def state_of_def artifacts_of_def agent_message_def)

lemma merge_failed:
  "state_of (merge_update now (failed_update x) d) = ''failed''"
  "artifacts_of (merge_update now (failed_update x) d) = artifacts_of d"
  "td_history (merge_update now (failed_update x) d) = td_history d @ [agent_message x]"
  "st_message (task_status (td_task (merge_update now (failed_update x) d))) = Some (agent_message x)"
  by (simp_all add: merge_update_def failed_update_def state_of_def artifacts_of_def agent_message_def)

lemma executeTask_throws:
  assumes "tbl taskId \<noteq> None" "skill \<noteq> JStr ''add''" "throws_at_once skill message"
  shows "\<exists>e. executeTask em taskId skill message tbl =
           [Tick, Emit (failed_update (''Error: '' @ em e)), Tick] \<and>
         failure_text em skill message = ''Error: '' @ em e"
  using assms
  by (auto simp: executeTask_def handleTask_def throws_at_once_def failure_text_def
        split: sum.splits)

lemma executeTask_throws_add:
  assumes "tbl taskId \<noteq> None" "message_params message = Inl e"
  shows "executeTask em taskId skill message tbl =
           [Tick, Emit (failed_update (''Error: '' @ em e)), Tick]"
  using assms by (auto simp: executeTask_def handleTask_def)

lemma executeTask_unknown:
  assumes "tbl taskId \<noteq> None" "skill \<noteq> JStr ''add''" "\<not> throws_at_once skill message"
  shows "executeTask em taskId skill message tbl =
           [Emit (failed_update (failure_text em skill message)), Tick]"
  using assms
  by (auto simp: executeTask_def handleTask_def throws_at_once_def failure_text_def
        split: sum.splits)

lemma executeTask_add:
  assumes "tbl taskId \<noteq> None" "message_params message = Inr p"
  shows "\<exists>rest. executeTask em taskId (JStr ''add'') message tbl =
           Emit working_update # Tick # Timer 1000 # rest \<and> last_leg rest"
  using assms
  by (auto simp: executeTask_def handleTask_def last_leg_def split: sum.splits) blast+


lemma tasks_send_caught:
  assumes "\<not> nullish params"
    and "executeTask em uuid (get_prop params ''skill'') (get_prop params ''message'')
           ((tasks s)(uuid \<mapsto> submitted_record uuid now (get_prop params ''message''))) =
         [Tick, Emit (failed_update x), Tick]"
  shows "tasks_send em now uuid params ident s =
     (Some (ok_response (initial_task uuid now) ident),
      s\<lparr>tasks := (tasks s)(uuid \<mapsto> merge_update now (failed_update x)
            (submitted_record uuid now (get_prop params ''message'')))\<rparr>)"
  using assms
  by (simp add: tasks_send_def Let_def updateCallback_def ok_response_def submitted_record_def)

lemma tasks_send_emits:
  assumes "\<not> nullish params"
    and "executeTask em uuid (get_prop params ''skill'') (get_prop params ''message'')
           ((tasks s)(uuid \<mapsto> submitted_record uuid now (get_prop params ''message''))) =
         [Emit u, Tick]"
  shows "tasks_send em now uuid params ident s =
     (Some (ok_response (td_task (merge_update now u
              (submitted_record uuid now (get_prop params ''message'')))) ident),
      s\<lparr>tasks := (tasks s)(uuid \<mapsto> merge_update now u
            (submitted_record uuid now (get_prop params ''message'')))\<rparr>)"
  using assms
  by (simp add: tasks_send_def Let_def updateCallback_def ok_response_def submitted_record_def)

lemma tasks_send_waits:
  assumes "\<not> nullish params"
    and "executeTask em uuid (get_prop params ''skill'') (get_prop params ''message'')
           ((tasks s)(uuid \<mapsto> submitted_record uuid now (get_prop params ''message''))) =
         Emit u # Tick # Timer ms # rest"
  shows "tasks_send em now uuid params ident s =
     (Some (ok_response (td_task (merge_update now u
              (submitted_record uuid now (get_prop params ''message'')))) ident),
      s\<lparr>tasks := (tasks s)(uuid \<mapsto> merge_update now u
            (submitted_record uuid now (get_prop params ''message''))),
        timers := timers s @ [(uuid, rest)]\<rparr>)"
  using assms
  by (simp add: tasks_send_def Let_def updateCallback_def ok_response_def submitted_record_def)

lemma post_api_effect:
  assumes "post_api em now uuid req s = (r, s')"
  shows "s' = s \<or>
         (\<exists>params ident. \<not> nullish params \<and> tasks_send em now uuid params ident s = (r, s'))"
proof (cases "authenticateApiKey req")
  case (Some a)
  then show ?thesis using assms by (simp add: post_api_def)
next
  case None
  then have h: "api_handler em now uuid req s = (r, s')" using assms by (simp add: post_api_def)
  show ?thesis
  proof (cases "nullish (body req)")
    case True
    then show ?thesis using h by (simp add: api_handler_def)
  next
    case False
    show ?thesis
    proof (cases "get_prop (body req) ''method'' = JStr ''tasks/send''")
      case True
      then have t: "tasks_send em now uuid (get_prop (body req) ''params'') (get_prop (body req) ''id'') s = (r, s')"
        using h False by (simp add: api_handler_def)
      show ?thesis
      proof (cases "nullish (get_prop (body req) ''params'')")
        case True
        then show ?thesis using t by (simp add: tasks_send_def)
      next
        case False
        then show ?thesis using t by blast
      qed
    next
      case False
      then show ?thesis using h \<open>\<not> nullish (body req)\<close>
        by (auto simp: api_handler_def tasks_get_def Let_def split: if_splits option.splits)
    qed
  qed
qed

text \<open>What a \<open>tasks/send\<close> leaves: a failed task, or a working one with its last leg
  waiting.\<close>

lemma tasks_send_effect:
  assumes p: "\<not> nullish params" and t: "tasks_send em now uuid params ident s = (r, s')"
  shows "(\<exists>d. s' = s\<lparr>tasks := (tasks s)(uuid \<mapsto> d)\<rparr> \<and> state_of d = ''failed'') \<or>
         (\<exists>d rest. s' = s\<lparr>tasks := (tasks s)(uuid \<mapsto> d), timers := timers s @ [(uuid, rest)]\<rparr>
                \<and> state_of d = ''working'' \<and> artifacts_of d = [] \<and> last_leg rest)"
proof -
  let ?skill = "get_prop params ''skill''"
  let ?message = "get_prop params ''message''"
  let ?d0 = "submitted_record uuid now ?message"
  let ?tbl = "(tasks s)(uuid \<mapsto> ?d0)"
  have st: "?tbl uuid \<noteq> None" by simp
  let ?failed = "\<exists>d. s' = s\<lparr>tasks := (tasks s)(uuid \<mapsto> d)\<rparr> \<and> state_of d = ''failed''"
  have caught: "?failed" if "executeTask em uuid ?skill ?message ?tbl = [Tick, Emit (failed_update x), Tick]" for x
  proof -
    have "s' = s\<lparr>tasks := (tasks s)(uuid \<mapsto> merge_update now (failed_update x) ?d0)\<rparr>"
      using tasks_send_caught[OF p that, of ident] t by simp
    moreover have "state_of (merge_update now (failed_update x) ?d0) = ''failed''"
      by (rule merge_failed(1))
    ultimately show ?thesis by (intro exI[of _ "merge_update now (failed_update x) ?d0"] conjI)
  qed
  show ?thesis
  proof (cases "message_params ?message")
    case (Inl e)
    from caught[OF executeTask_throws_add[where tbl = ?tbl and taskId = uuid and em = em and skill = ?skill, OF st Inl]] show ?thesis by (rule disjI1)
  next
    case (Inr q)
    show ?thesis
    proof (cases "?skill = JStr ''add''")
      case True
      from executeTask_add[where tbl = ?tbl and taskId = uuid and em = em, OF st Inr] True obtain rest where
        e: "executeTask em uuid ?skill ?message ?tbl = Emit working_update # Tick # Timer 1000 # rest"
        and l: "last_leg rest" by auto
      let ?d = "merge_update now working_update ?d0"
      have "s' = s\<lparr>tasks := (tasks s)(uuid \<mapsto> ?d), timers := timers s @ [(uuid, rest)]\<rparr>"
        using tasks_send_waits[OF p e, of ident] t by simp
      moreover have "state_of ?d = ''working''" by (rule merge_working(1))
      moreover have "artifacts_of ?d = []"
        unfolding merge_working(2) by (simp add: artifacts_of_def submitted_record_def initial_task_def)
      ultimately have "\<exists>d rest. s' = s\<lparr>tasks := (tasks s)(uuid \<mapsto> d), timers := timers s @ [(uuid, rest)]\<rparr>
                \<and> state_of d = ''working'' \<and> artifacts_of d = [] \<and> last_leg rest"
        using l by (intro exI[of _ ?d] exI[of _ rest] conjI)
      then show ?thesis by (rule disjI2)
    next
      case False
      show ?thesis
      proof (cases "throws_at_once ?skill ?message")
        case True
        from executeTask_throws[where tbl = ?tbl and taskId = uuid and em = em, OF st False True] obtain e where
          "executeTask em uuid ?skill ?message ?tbl = [Tick, Emit (failed_update (''Error: '' @ em e)), Tick]"
          by blast
        from caught[OF this] show ?thesis by (rule disjI1)
      next
        case t': False
        let ?u = "failed_update (failure_text em ?skill ?message)"
        have "s' = s\<lparr>tasks := (tasks s)(uuid \<mapsto> merge_update now ?u ?d0)\<rparr>"
          using tasks_send_emits[OF p executeTask_unknown[where tbl = ?tbl and taskId = uuid and em = em, OF st False t'], of ident] t by simp
        moreover have "state_of (merge_update now ?u ?d0) = ''failed''" by (rule merge_failed(1))
        ultimately have ?failed by (intro exI[of _ "merge_update now ?u ?d0"] conjI)
        then show ?thesis by (rule disjI1)
      qed
    qed
  qed
qed

lemma request_effect:
  assumes "post_api em now uuid req s = (r, s')"
  shows "s' = s \<or>
         (\<exists>d. s' = s\<lparr>tasks := (tasks s)(uuid \<mapsto> d)\<rparr> \<and> state_of d = ''failed'') \<or>
         (\<exists>d rest. s' = s\<lparr>tasks := (tasks s)(uuid \<mapsto> d), timers := timers s @ [(uuid, rest)]\<rparr>
                \<and> state_of d = ''working'' \<and> artifacts_of d = [] \<and> last_leg rest)"
  using post_api_effect[OF assms] tasks_send_effect by blast

lemma last_leg_cases:
  assumes "last_leg rest"
  obtains u where "rest = [Emit u, Tick] \<or> rest = [Tick, Emit u, Tick]"
    "state_of (merge_update now u d) = ''completed'' \<or> state_of (merge_update now u d) = ''failed''"
proof -
  from assms consider t r where "rest = [Emit (completed_update t r), Tick]"
    | x where "rest = [Tick, Emit (failed_update x), Tick]"
    unfolding last_leg_def by blast
  then show ?thesis
  proof cases
    case 1
    then show ?thesis using that[of "completed_update t r"] merge_completed(1) by simp
  next
    case 2
    then show ?thesis using that[of "failed_update x"] merge_failed(1) by simp
  qed
qed

lemma timer_effect:
  assumes ok: "pending_ok s" and i: "i < length (timers s)"
  shows "\<exists>t d rest u. timers s ! i = (t, rest) \<and> last_leg rest \<and>
           (rest = [Emit u, Tick] \<or> rest = [Tick, Emit u, Tick]) \<and>
           tasks s t = Some d \<and> state_of d = ''working'' \<and> artifacts_of d = [] \<and>
           (state_of (merge_update now u d) = ''completed'' \<or>
            state_of (merge_update now u d) = ''failed'') \<and>
           fire_timer now i s =
             s\<lparr>timers := take i (timers s) @ drop (Suc i) (timers s),
               tasks := (tasks s)(t \<mapsto> merge_update now u d)\<rparr>"
proof -
  obtain t k where tk: "timers s ! i = (t, k)" by (cases "timers s ! i")
  have "(t, k) \<in> set (timers s)" using i tk by (metis nth_mem)
  with ok have "\<exists>d. tasks s t = Some d \<and> state_of d = ''working'' \<and> artifacts_of d = []
                \<and> last_leg k"
    unfolding pending_ok_def by blast
  then obtain d where d: "tasks s t = Some d" "state_of d = ''working''" "artifacts_of d = []"
    and k: "last_leg k" by blast
  from last_leg_cases[OF k, of now d] obtain u where
    u: "k = [Emit u, Tick] \<or> k = [Tick, Emit u, Tick]"
    and m: "state_of (merge_update now u d) = ''completed'' \<or> state_of (merge_update now u d) = ''failed''"
    by blast
  have "fire_timer now i s =
          s\<lparr>timers := take i (timers s) @ drop (Suc i) (timers s),
            tasks := (tasks s)(t \<mapsto> merge_update now u d)\<rparr>"
    using i tk u d(1) by (auto simp add: fire_timer_def updateCallback_def)
  with tk k u m d show ?thesis
    by (intro exI[of _ t] exI[of _ d] exI[of _ k] exI[of _ u]) simp
qed

lemma pending_ok_start: "pending_ok server_start"
  by (simp add: pending_ok_def server_start_def)

lemma pending_key_stored:
  "pending_ok s \<Longrightarrow> (t, k) \<in> set (timers s) \<Longrightarrow> t \<in> dom (tasks s)"
  unfolding pending_ok_def by blast

lemma pending_ok_request:
  assumes ok: "pending_ok s" and fresh: "uuid \<notin> dom (tasks s)"
    and req: "post_api em now uuid req s = (r, s')"
  shows "pending_ok s'"
proof -
  have nokey: "uuid \<notin> fst ` set (timers s)"
    using pending_key_stored[OF ok] fresh by force
  from request_effect[OF req] show ?thesis
  proof (elim disjE exE conjE)
    assume "s' = s" then show ?thesis using ok by simp
  next
    fix d assume s': "s' = s\<lparr>tasks := (tasks s)(uuid \<mapsto> d)\<rparr>" and st: "state_of d = ''failed''"
    show ?thesis unfolding pending_ok_def
    proof (intro conjI)
      show "distinct (map fst (timers s'))" using ok s' by (simp add: pending_ok_def)
      show "\<forall>(t, rest)\<in>set (timers s'). \<exists>d. tasks s' t = Some d \<and> state_of d = ''working'' \<and>
               artifacts_of d = [] \<and> last_leg rest"
      proof (clarify)
        fix t k assume m: "(t, k) \<in> set (timers s')"
        then have m': "(t, k) \<in> set (timers s)" using s' by simp
        then have "t \<noteq> uuid" using nokey by force
        moreover from ok m' have "\<exists>d. tasks s t = Some d \<and> state_of d = ''working'' \<and>
               artifacts_of d = [] \<and> last_leg k"
          unfolding pending_ok_def by blast
        ultimately show "\<exists>d. tasks s' t = Some d \<and> state_of d = ''working'' \<and>
               artifacts_of d = [] \<and> last_leg k"
          using s' by simp
      qed
      show "\<forall>t d. tasks s' t = Some d \<longrightarrow>
              state_of d = ''working'' \<or> state_of d = ''completed'' \<or> state_of d = ''failed''"
        using ok st s' unfolding pending_ok_def by (auto split: if_splits)
    qed
  next
    fix d x
    assume s': "s' = s\<lparr>tasks := (tasks s)(uuid \<mapsto> d), timers := timers s @ [(uuid, x)]\<rparr>"
      and st: "state_of d = ''working''" and ar: "artifacts_of d = []" and ll: "last_leg x"
    show ?thesis unfolding pending_ok_def
    proof (intro conjI)
      show "distinct (map fst (timers s'))" using ok s' nokey by (simp add: pending_ok_def)
      show "\<forall>(t, rest)\<in>set (timers s'). \<exists>d. tasks s' t = Some d \<and> state_of d = ''working'' \<and>
               artifacts_of d = [] \<and> last_leg rest"
      proof (clarify)
        fix t k assume m: "(t, k) \<in> set (timers s')"
        show "\<exists>d. tasks s' t = Some d \<and> state_of d = ''working'' \<and>
               artifacts_of d = [] \<and> last_leg k"
        proof (cases "t = uuid")
          case True
          then have "(t, k) \<notin> set (timers s)" using nokey by force
          then have "k = x" using m s' by simp
          then show ?thesis using True s' st ar ll by auto
        next
          case False
          then have m': "(t, k) \<in> set (timers s)" using m s' by simp
          from ok m' have "\<exists>d. tasks s t = Some d \<and> state_of d = ''working'' \<and>
               artifacts_of d = [] \<and> last_leg k"
            unfolding pending_ok_def by blast
          then show ?thesis using s' False by simp
        qed
      qed
      show "\<forall>t d. tasks s' t = Some d \<longrightarrow>
              state_of d = ''working'' \<or> state_of d = ''completed'' \<or> state_of d = ''failed''"
        using ok st s' unfolding pending_ok_def by (auto split: if_splits)
    qed
  qed
qed

lemma distinct_remove_nth:
  assumes "distinct (map fst xs)" "i < length xs"
  shows "distinct (map fst (take i xs @ drop (Suc i) xs))"
    and "fst (xs ! i) \<notin> fst ` set (take i xs @ drop (Suc i) xs)"
    and "set (take i xs @ drop (Suc i) xs) \<subseteq> set xs"
proof -
  have e: "xs = take i xs @ xs ! i # drop (Suc i) xs" using assms(2) by (rule id_take_nth_drop)
  have "distinct (map fst (take i xs @ xs ! i # drop (Suc i) xs))" using assms(1) e by simp
  then show "distinct (map fst (take i xs @ drop (Suc i) xs))"
    and "fst (xs ! i) \<notin> fst ` set (take i xs @ drop (Suc i) xs)" by auto
  show "set (take i xs @ drop (Suc i) xs) \<subseteq> set xs"
    using set_take_subset set_drop_subset by (metis Un_least set_append)
qed

lemma pending_ok_timer:
  assumes ok: "pending_ok s" and i: "i < length (timers s)"
  shows "pending_ok (fire_timer now i s)"
proof -
  from timer_effect[OF ok i, of now] obtain t d k u where
    e: "timers s ! i = (t, k)" and d: "tasks s t = Some d"
    and m: "state_of (merge_update now u d) = ''completed'' \<or>
            state_of (merge_update now u d) = ''failed''"
    and f: "fire_timer now i s =
             s\<lparr>timers := take i (timers s) @ drop (Suc i) (timers s),
               tasks := (tasks s)(t \<mapsto> merge_update now u d)\<rparr>" by blast
  let ?rest = "take i (timers s) @ drop (Suc i) (timers s)"
  let ?s' = "s\<lparr>timers := ?rest, tasks := (tasks s)(t \<mapsto> merge_update now u d)\<rparr>"
  have dist: "distinct (map fst (timers s))" using ok by (simp add: pending_ok_def)
  have r1: "distinct (map fst ?rest)" using distinct_remove_nth(1)[OF dist i] .
  have r2: "t \<notin> fst ` set ?rest" using distinct_remove_nth(2)[OF dist i] e by simp
  have r3: "set ?rest \<subseteq> set (timers s)" using distinct_remove_nth(3)[OF dist i] .
  show ?thesis unfolding f pending_ok_def
  proof (intro conjI)
    show "distinct (map fst (timers ?s'))" using r1 by simp
    show "\<forall>(t', rest)\<in>set (timers ?s').
            \<exists>d'. tasks ?s' t' = Some d' \<and>
              state_of d' = ''working'' \<and> artifacts_of d' = [] \<and> last_leg rest"
    proof (clarify)
      fix t' k' assume "(t', k') \<in> set (timers ?s')"
      then have m: "(t', k') \<in> set ?rest" by simp
      then have "t' \<noteq> t" using r2 by force
      moreover from m r3 have "(t', k') \<in> set (timers s)" by blast
      with ok have "\<exists>d. tasks s t' = Some d \<and> state_of d = ''working'' \<and>
               artifacts_of d = [] \<and> last_leg k'"
        unfolding pending_ok_def by blast
      ultimately show "\<exists>d'. tasks ?s' t' = Some d' \<and>
              state_of d' = ''working'' \<and> artifacts_of d' = [] \<and> last_leg k'"
        by simp
    qed
    show "\<forall>t' d'. tasks ?s' t' = Some d' \<longrightarrow>
            state_of d' = ''working'' \<or> state_of d' = ''completed'' \<or> state_of d' = ''failed''"
      using ok m unfolding pending_ok_def by (auto split: if_splits)
  qed
qed

lemma pending_ok_step: "pending_ok s \<Longrightarrow> step em s s' \<Longrightarrow> pending_ok s'"
  by (erule step.cases) (auto intro: pending_ok_request pending_ok_timer)

lemma reachable_pending_ok: "reachable em s \<Longrightarrow> pending_ok s"
  by (induction rule: reachable.induct) (auto intro: pending_ok_start pending_ok_step)

lemma get_prop_not_nullish: "get_prop v k = JStr m \<Longrightarrow> \<not> nullish v"
  by (cases v) auto

lemma authenticate_accepts: "api_key req = Some ''test-api-key'' \<Longrightarrow> authenticateApiKey req = None"
  by (simp add: authenticateApiKey_def)

lemma authenticate_rejects:
  "api_key req \<noteq> Some ''test-api-key'' \<Longrightarrow>
   authenticateApiKey req =
     Some \<lparr>rsp_status = 401, rsp_payload = Error (- 32001) ''Authentication failed'' None,
           rsp_id = js_or (if nullish (body req) then JUndef else get_prop (body req) ''id'') JNull\<rparr>"
  by (cases "api_key req") (auto simp: authenticateApiKey_def)

lemma tasks_send_responds:
  "\<exists>r s'. tasks_send em now uuid params ident s = (Some r, s') \<and> rsp_id r = ident"
  by (simp add: tasks_send_def internal_error_def Let_def)

lemma tasks_get_responds:
  "\<exists>r. tasks_get em params ident s = (Some r, s) \<and> rsp_id r = ident"
  by (simp add: tasks_get_def internal_error_def Let_def split: option.split)

lemma api_handler_responds:
  assumes "\<not> nullish (body req)"
  shows "\<exists>r s'. api_handler em now uuid req s = (Some r, s') \<and> rsp_id r = get_prop (body req) ''id''"
proof (cases "get_prop (body req) ''method'' = JStr ''tasks/send''")
  case True
  then show ?thesis using assms tasks_send_responds by (simp add: api_handler_def)
next
  case False
  show ?thesis
  proof (cases "get_prop (body req) ''method'' = JStr ''tasks/get''")
    case True
    then show ?thesis using assms tasks_get_responds[of em "get_prop (body req) ''params''" "get_prop (body req) ''id''" s]
      by (auto simp add: api_handler_def)
  next
    case g: False
    then show ?thesis using assms False by (simp add: api_handler_def)
  qed
qed

subsection \<open>The request id in the response\<close>

text \<open>
  C4 (as amended). For a request with a body, a response is sent. Its \<open>id\<close> is the \<open>id\<close>
  of the request when the request is authenticated (also when that \<open>id\<close> is absent), and
  on an authentication failure when the \<open>id\<close> is truthy; on an authentication failure
  with an absent or null \<open>id\<close> the response carries \<open>id: null\<close>.
\<close>

theorem response_id_echo:
  assumes "\<not> nullish (body req)"
    and "api_key req = Some ''test-api-key'' \<or> truthy (get_prop (body req) ''id'')
         \<or> nullish (get_prop (body req) ''id'')"
  shows "\<exists>r s'. post_api error_message now uuid req s = (Some r, s') \<and>
           rsp_id r = (if api_key req = Some ''test-api-key'' \<or> truthy (get_prop (body req) ''id'')
                       then get_prop (body req) ''id'' else JNull)"
proof (cases "api_key req = Some ''test-api-key''")
  case True
  then show ?thesis using api_handler_responds[OF assms(1)]
    by (simp add: post_api_def authenticate_accepts)
next
  case False
  have "truthy (get_prop (body req) ''id'') \<or> nullish (get_prop (body req) ''id'')"
    using assms(2) False by simp
  then have "js_or (get_prop (body req) ''id'') JNull =
      (if truthy (get_prop (body req) ''id'') then get_prop (body req) ''id'' else JNull)"
    by (simp add: js_or_def)
  then show ?thesis using False assms(1) by (simp add: post_api_def authenticate_rejects)
qed

theorem response_id_echo_witness:
  "\<not> nullish (body (getTask_request ''wrong-key'' ''t1'' False ''17'')) \<and>
   truthy (get_prop (body (getTask_request ''wrong-key'' ''t1'' False ''17'')) ''id'') \<and>
   (\<exists>r s'. post_api node_error_message 0 ''u1'' (getTask_request ''wrong-key'' ''t1'' False ''17'') server_start = (Some r, s')
       \<and> rsp_id r = JStr ''17'')"
  using response_id_echo[of "getTask_request ''wrong-key'' ''t1'' False ''17''" node_error_message 0 "''u1''" server_start]
  by (simp add: getTask_request_def rpc_request_def)

text \<open>A request without an \<open>id\<close> and with a wrong key is answered with \<open>id: null\<close>.\<close>

theorem response_id_not_echoed_counterexample:
  "get_prop (body \<lparr>api_key = Some ''wrong-key'', body = JObj [(''jsonrpc'', JStr ''2.0''), (''method'', JStr ''tasks/get''),
         (''params'', JObj [(''taskId'', JStr ''t1'')])]\<rparr>) ''id'' = JUndef \<and>
   map_option rsp_id (fst (post_api node_error_message 0 ''u1''
      \<lparr>api_key = Some ''wrong-key'', body = JObj [(''jsonrpc'', JStr ''2.0''), (''method'', JStr ''tasks/get''),
         (''params'', JObj [(''taskId'', JStr ''t1'')])]\<rparr> server_start)) = Some JNull"
  by (simp add: post_api_def authenticateApiKey_def js_or_def)


subsection \<open>Authentication\<close>

text \<open>
  C8. A request whose \<open>x-api-key\<close> header is missing or is not the shared secret gets the
  401 response with error code -32001, whatever its method, and the server state (the
  task map and the waiting runs) is the one before the request.
\<close>

theorem unauthenticated_request_rejected:
  assumes "api_key req \<noteq> Some ''test-api-key''"
  shows "post_api error_message now uuid req s =
           (Some \<lparr>rsp_status = 401,
                  rsp_payload = Error (- 32001) ''Authentication failed'' None,
                  rsp_id = js_or (if nullish (body req) then JUndef else get_prop (body req) ''id'') JNull\<rparr>,
            s)"
  using assms by (simp add: post_api_def authenticate_rejects)

theorem unauthenticated_request_rejected_witness:
  "api_key (sendTask_request ''guess'' ''add'' (JObj [(''a'', JNum 5), (''b'', JNum 3)]) ''1'') \<noteq> Some ''test-api-key'' \<and>
   post_api node_error_message 0 ''u1''
     (sendTask_request ''guess'' ''add'' (JObj [(''a'', JNum 5), (''b'', JNum 3)]) ''1'') server_start =
     (Some \<lparr>rsp_status = 401, rsp_payload = Error (- 32001) ''Authentication failed'' None,
            rsp_id = JStr ''1''\<rparr>, server_start)"
  using unauthenticated_request_rejected[of "sendTask_request ''guess'' ''add'' (JObj [(''a'', JNum 5), (''b'', JNum 3)]) ''1''"
      node_error_message 0 "''u1''" server_start]
  by (simp add: sendTask_request_def rpc_request_def js_or_def)

subsection \<open>\<open>tasks/get\<close> of an unknown task\<close>

text \<open>
  C7. An authenticated \<open>tasks/get\<close> request whose \<open>taskId\<close> is not a key of the task map
  gets the error envelope with code -32002 (``Task not found''), never a result, and the
  server state is unchanged.
\<close>

theorem tasks_get_unknown_task:
  assumes auth: "api_key req = Some ''test-api-key''"
    and meth: "get_prop (body req) ''method'' = JStr ''tasks/get''"
    and params: "\<not> nullish (get_prop (body req) ''params'')"
    and unknown: "store_get (tasks s) (get_prop (get_prop (body req) ''params'') ''taskId'') = None"
  shows "post_api error_message now uuid req s =
           (Some \<lparr>rsp_status = 404,
                  rsp_payload = Error (- 32002) ''Task not found'' None,
                  rsp_id = get_prop (body req) ''id''\<rparr>,
            s)"
proof -
  have "\<not> nullish (body req)" using meth by (rule get_prop_not_nullish)
  then have "api_handler error_message now uuid req s =
      tasks_get error_message (get_prop (body req) ''params'') (get_prop (body req) ''id'') s"
    using meth by (simp add: api_handler_def)
  moreover have "tasks_get error_message (get_prop (body req) ''params'') (get_prop (body req) ''id'') s =
      (Some \<lparr>rsp_status = 404, rsp_payload = Error (- 32002) ''Task not found'' None,
             rsp_id = get_prop (body req) ''id''\<rparr>, s)"
    using params unknown by (simp add: tasks_get_def)
  ultimately show ?thesis using auth by (simp add: post_api_def authenticate_accepts)
qed

theorem tasks_get_unknown_task_witness:
  "api_key (getTask_request ''test-api-key'' ''no-such-task'' False ''2'') = Some ''test-api-key'' \<and>
   get_prop (body (getTask_request ''test-api-key'' ''no-such-task'' False ''2'')) ''method'' = JStr ''tasks/get'' \<and>
   \<not> nullish (get_prop (body (getTask_request ''test-api-key'' ''no-such-task'' False ''2'')) ''params'') \<and>
   store_get (tasks server_start)
     (get_prop (get_prop (body (getTask_request ''test-api-key'' ''no-such-task'' False ''2'')) ''params'') ''taskId'') = None \<and>
   post_api node_error_message 0 ''u1'' (getTask_request ''test-api-key'' ''no-such-task'' False ''2'') server_start =
     (Some \<lparr>rsp_status = 404, rsp_payload = Error (- 32002) ''Task not found'' None,
            rsp_id = JStr ''2''\<rparr>, server_start)"
  using tasks_get_unknown_task[of "getTask_request ''test-api-key'' ''no-such-task'' False ''2''" server_start
      node_error_message 0 "''u1''"]
  by (simp add: getTask_request_def rpc_request_def server_start_def)

subsection \<open>An update for an unknown task\<close>

text \<open>
  C3 (as amended). When no record is stored under the task id, the sink leaves the map as
  it is and returns normally; its promise resolves with \<open>undefined\<close>, as that of every
  update does, so the caller gets no signal.
\<close>

theorem update_of_unknown_task_is_silent:
  assumes "tbl taskId = None"
  shows "updateCallback taskId now u tbl = (JUndef, tbl) \<and>
         fst (updateCallback taskId' now' u' tbl') = JUndef"
  using assms by (simp add: updateCallback_def split: option.split)

theorem update_of_unknown_task_is_silent_witness:
  "Map.empty ''no-such-task'' = None \<and>
   updateCallback ''no-such-task'' 0 working_update Map.empty = (JUndef, Map.empty)"
  using update_of_unknown_task_is_silent[of Map.empty "''no-such-task''" 0 working_update]
  by simp

text \<open>The update of a missing task and the update of a stored one complete alike.\<close>

theorem update_of_unknown_task_no_signal_counterexample:
  "updateCallback ''no-such-task'' 0 working_update Map.empty = (JUndef, Map.empty) \<and>
   fst (updateCallback ''t1'' 0 working_update
          [''t1'' \<mapsto> \<lparr>td_task = initial_task ''t1'' 0, td_history = [JNull]\<rparr>]) = JUndef"
  by (simp add: updateCallback_def)

subsection \<open>The response of \<open>tasks/send\<close>\<close>

text \<open>
  C1. The claim is that the record in the response of \<open>tasks/send\<close> is in state
  \<open>submitted\<close>. The code answers with the state the record has after the synchronous part
  of the run: \<open>working\<close> for the skill \<open>add\<close>, \<open>failed\<close> for any other skill, and
  \<open>submitted\<close> only when the handler throws before its first update (the parts of the
  message cannot be searched, or the unknown skill cannot be converted to a string).
\<close>

theorem tasks_send_response_state:
  assumes auth: "api_key req = Some ''test-api-key''"
    and meth: "get_prop (body req) ''method'' = JStr ''tasks/send''"
    and params: "\<not> nullish (get_prop (body req) ''params'')"
    and skill: "get_prop (get_prop (body req) ''params'') ''skill'' = skill"
    and message: "get_prop (get_prop (body req) ''params'') ''message'' = message"
  shows "\<exists>t s'. post_api error_message now uuid req s = (Some (ok_response t (get_prop (body req) ''id'')), s') \<and>
           st_state (task_status t) =
             (if skill = JStr ''add'' then
                (case message_params message of Inl e \<Rightarrow> ''submitted'' | Inr p \<Rightarrow> ''working'')
              else if throws_at_once skill message then ''submitted'' else ''failed'')"
proof -
  let ?params = "get_prop (body req) ''params''"
  let ?ident = "get_prop (body req) ''id''"
  let ?skill = "get_prop ?params ''skill''"
  let ?message = "get_prop ?params ''message''"
  let ?d0 = "submitted_record uuid now ?message"
  let ?tbl = "(tasks s)(uuid \<mapsto> ?d0)"
  have st: "?tbl uuid \<noteq> None" by simp
  have "\<not> nullish (body req)" using meth by (rule get_prop_not_nullish)
  then have "api_handler error_message now uuid req s = tasks_send error_message now uuid ?params ?ident s"
    using meth by (simp add: api_handler_def)
  then have p: "post_api error_message now uuid req s = tasks_send error_message now uuid ?params ?ident s"
    using auth by (simp add: post_api_def authenticate_accepts)
  let ?goal = "\<lambda>x. \<exists>t s'. post_api error_message now uuid req s = (Some (ok_response t ?ident), s') \<and>
           st_state (task_status t) = x"
  have sub: "st_state (task_status (initial_task uuid now)) = ''submitted''"
    by (simp add: initial_task_def)
  have caught: "?goal ''submitted''"
    if "executeTask error_message uuid ?skill ?message ?tbl = [Tick, Emit (failed_update x), Tick]" for x
    using sub unfolding p tasks_send_caught[OF params that]
    by (intro exI conjI) (rule refl)
  have "?goal (if ?skill = JStr ''add'' then
                (case message_params ?message of Inl e \<Rightarrow> ''submitted'' | Inr p \<Rightarrow> ''working'')
              else if throws_at_once ?skill ?message then ''submitted'' else ''failed'')"
  proof (cases "?skill = JStr ''add''")
    case True
    show ?thesis
    proof (cases "message_params ?message")
      case (Inl e)
      from caught[OF executeTask_throws_add[where tbl = ?tbl and taskId = uuid
            and em = error_message and skill = ?skill, OF st Inl]]
      show ?thesis using True Inl by simp
    next
      case (Inr q)
      from executeTask_add[where tbl = ?tbl and taskId = uuid and em = error_message, OF st Inr]
      obtain rest where e: "executeTask error_message uuid ?skill ?message ?tbl =
          Emit working_update # Tick # Timer 1000 # rest" using True by auto
      have "st_state (task_status (td_task (merge_update now working_update ?d0))) = ''working''"
        using merge_working(1)[of now ?d0] by (simp add: state_of_def)
      then have "?goal ''working''"
        unfolding p tasks_send_waits[OF params e]
        by (intro exI conjI) (rule refl)
      then show ?thesis using True Inr by simp
    qed
  next
    case False
    show ?thesis
    proof (cases "throws_at_once ?skill ?message")
      case True
      from executeTask_throws[where tbl = ?tbl and taskId = uuid and em = error_message,
          OF st False True]
      obtain e where "executeTask error_message uuid ?skill ?message ?tbl =
          [Tick, Emit (failed_update (''Error: '' @ error_message e)), Tick]" by blast
      from caught[OF this] show ?thesis using False True by simp
    next
      case t: False
      let ?u = "failed_update (failure_text error_message ?skill ?message)"
      have "st_state (task_status (td_task (merge_update now ?u ?d0))) = ''failed''"
        using merge_failed(1)[of now _ ?d0] by (simp add: state_of_def)
      then have "?goal ''failed''"
        unfolding p tasks_send_emits[OF params executeTask_unknown[where tbl = ?tbl
            and taskId = uuid and em = error_message, OF st False t]]
        by (intro exI conjI) (rule refl)
      then show ?thesis using False t by simp
    qed
  qed
  then show ?thesis unfolding skill message .
qed

theorem tasks_send_response_state_witness:
  "api_key (sendTask_request ''test-api-key'' ''add'' (JObj [(''a'', JNum 5), (''b'', JNum 3)]) ''1'') = Some ''test-api-key'' \<and>
   (\<exists>t s'. post_api node_error_message 0 ''u1''
        (sendTask_request ''test-api-key'' ''add'' (JObj [(''a'', JNum 5), (''b'', JNum 3)]) ''1'') server_start =
        (Some (ok_response t (JStr ''1'')), s') \<and>
      st_state (task_status t) = ''working'') \<and>
   (\<exists>t s'. post_api node_error_message 0 ''u1'' object_skill server_start =
        (Some (ok_response t (JStr ''1'')), s') \<and>
      st_state (task_status t) = ''submitted'')"
proof -
  have 1: "\<exists>t s'. post_api node_error_message 0 ''u1''
        (sendTask_request ''test-api-key'' ''add'' (JObj [(''a'', JNum 5), (''b'', JNum 3)]) ''1'') server_start =
        (Some (ok_response t (JStr ''1'')), s') \<and>
      st_state (task_status t) = ''working''"
    using tasks_send_response_state[of "sendTask_request ''test-api-key'' ''add'' (JObj [(''a'', JNum 5), (''b'', JNum 3)]) ''1''"
        "JStr ''add''" _ node_error_message 0 "''u1''" server_start]
    by (simp add: sendTask_request_def rpc_request_def message_params_def text_part_def data_part_def js_or_def)
  have 2: "\<exists>t s'. post_api node_error_message 0 ''u1'' object_skill server_start =
        (Some (ok_response t (JStr ''1'')), s') \<and>
      st_state (task_status t) = ''submitted''"
    using tasks_send_response_state[of object_skill "JObj [(''toString'', JNum 1)]" _
        node_error_message 0 "''u1''" server_start]
    by (simp add: object_skill_def rpc_request_def message_params_def text_part_def js_or_def
          throws_at_once_def)
  have "api_key (sendTask_request ''test-api-key'' ''add'' (JObj [(''a'', JNum 5), (''b'', JNum 3)]) ''1'') = Some ''test-api-key''"
    by (simp add: sendTask_request_def rpc_request_def)
  with 1 2 show ?thesis by blast
qed

subsection \<open>The example run\<close>

lemma bitlen_8: "bitlen 8 = 4"
  by (simp add: bitlen.simps)

lemma number_of_8: "number_of 8 = JNum 8"
  by (simp add: number_of_def round_double_def bitlen_8)

lemma sum_5_3: "js_add (JNum 5) (JNum 3) = Inr (JNum 8)"
  by (simp add: js_add_def number_of_8)

lemma text_8: "number_text 8 = ''8''"
  by (simp add: number_text_def nat_text_def show_nat.simps)

lemma send_add_5_3:
  "post_api em now uuid (sendTask_request ''test-api-key'' ''add'' (JObj [(''a'', JNum 5), (''b'', JNum 3)]) ident) s =
     (Some (ok_response (td_task (merge_update now working_update
              (submitted_record uuid now (JObj [(''role'', JStr ''user''),
                  (''parts'', JArr [text_part ''Please execute skill: add'',
                                    data_part (JObj [(''a'', JNum 5), (''b'', JNum 3)])])])))) (JStr ident)),
      s\<lparr>tasks := (tasks s)(uuid \<mapsto> merge_update now working_update
              (submitted_record uuid now (JObj [(''role'', JStr ''user''),
                  (''parts'', JArr [text_part ''Please execute skill: add'',
                                    data_part (JObj [(''a'', JNum 5), (''b'', JNum 3)])])]))),
        timers := timers s @ [(uuid, [Emit (completed_update ''8'' (JNum 8)), Tick])]\<rparr>)"
proof -
  let ?req = "sendTask_request ''test-api-key'' ''add'' (JObj [(''a'', JNum 5), (''b'', JNum 3)]) ident"
  let ?params = "get_prop (body ?req) ''params''"
  let ?message = "JObj [(''role'', JStr ''user''),
                  (''parts'', JArr [text_part ''Please execute skill: add'',
                                    data_part (JObj [(''a'', JNum 5), (''b'', JNum 3)])])]"
  have a: "api_key ?req = Some ''test-api-key''"
    and b: "\<not> nullish (body ?req)"
    and m: "get_prop (body ?req) ''method'' = JStr ''tasks/send''"
    and i: "get_prop (body ?req) ''id'' = JStr ident"
    and p: "\<not> nullish ?params"
    and k: "get_prop ?params ''skill'' = JStr ''add''"
    and g: "get_prop ?params ''message'' = ?message"
    and q: "message_params ?message = Inr (JObj [(''a'', JNum 5), (''b'', JNum 3)])"
    by (simp_all add: sendTask_request_def rpc_request_def message_params_def
          text_part_def data_part_def js_or_def)
  have e: "executeTask em uuid (get_prop ?params ''skill'') (get_prop ?params ''message'')
             ((tasks s)(uuid \<mapsto> submitted_record uuid now (get_prop ?params ''message''))) =
           Emit working_update # Tick # Timer 1000 # [Emit (completed_update ''8'' (JNum 8)), Tick]"
    unfolding k g by (simp add: executeTask_def handleTask_def q sum_5_3 text_8)
  have "post_api em now uuid ?req s = tasks_send em now uuid ?params (get_prop (body ?req) ''id'') s"
    using a b m by (simp add: post_api_def authenticate_accepts api_handler_def)
  then show ?thesis
    unfolding tasks_send_waits[OF p e] i g by simp
qed

lemma after_send_eq:
  "after_send =
     \<lparr>tasks = [''u1'' \<mapsto> merge_update 0 working_update
                 (submitted_record ''u1'' 0 (JObj [(''role'', JStr ''user''),
                  (''parts'', JArr [text_part ''Please execute skill: add'',
                                    data_part (JObj [(''a'', JNum 5), (''b'', JNum 3)])])]))],
      timers = [(''u1'', [Emit (completed_update ''8'' (JNum 8)), Tick])]\<rparr>"
  unfolding after_send_def add_5_3_def send_add_5_3 by (simp add: server_start_def)

lemma after_timer_eq:
  "after_timer =
     \<lparr>tasks = [''u1'' \<mapsto> merge_update 1000 (completed_update ''8'' (JNum 8)) (merge_update 0 working_update
                 (submitted_record ''u1'' 0 (JObj [(''role'', JStr ''user''),
                  (''parts'', JArr [text_part ''Please execute skill: add'',
                                    data_part (JObj [(''a'', JNum 5), (''b'', JNum 3)])])])))],
      timers = []\<rparr>"
  unfolding after_timer_def after_send_eq
  by (simp add: fire_timer_def updateCallback_def)

lemma reachable_after_send: "reachable node_error_message after_send"
proof -
  have "step node_error_message server_start after_send"
    unfolding after_send_def
    by (rule step.request[where uuid = "''u1''" and now = 0 and req = add_5_3
          and r = "fst (post_api node_error_message 0 ''u1'' add_5_3 server_start)"])
       (simp_all add: server_start_def)
  then show ?thesis using reach_start reach_step by blast
qed

lemma step_after_send: "step node_error_message after_send after_timer"
  unfolding after_timer_def by (rule step.timer) (simp add: after_send_eq)

lemma reachable_after_timer: "reachable node_error_message after_timer"
  using step_after_send reachable_after_send reach_step by blast

lemma step_after_timer: "step node_error_message after_timer after_second_send"
  unfolding after_second_send_def
  by (rule step.request[where uuid = "''u2''" and now = 2000 and req = add_5_3
        and r = "fst (post_api node_error_message 2000 ''u2'' add_5_3 after_timer)"])
     (simp_all add: after_timer_eq)

subsection \<open>Cancellation\<close>

lemma emitted_executeTask:
  "u \<in> set (emitted (executeTask em taskId skill message tbl)) \<Longrightarrow>
   upd_state u = Some ''working'' \<or> upd_state u = Some ''completed'' \<or> upd_state u = Some ''failed''"
  by (auto simp: executeTask_def handleTask_def working_update_def completed_update_def
        failed_update_def split: option.splits sum.splits if_splits)

text \<open>
  C10. In every reachable state of the server no stored task is in state \<open>canceled\<close> and
  the cancellation probe \<open>isCancelled\<close> is false for every task id; no run of
  \<open>executeTask\<close> emits an update with state \<open>canceled\<close> (and the dispatcher has no method
  that cancels).
\<close>

theorem canceled_unreachable:
  assumes "reachable error_message s"
  shows "\<not> isCancelled taskId (tasks s) \<and>
         (\<forall>d. tasks s taskId = Some d \<longrightarrow> state_of d \<noteq> ''canceled'') \<and>
         (\<forall>u \<in> set (emitted (executeTask error_message taskId' skill message tbl)).
             upd_state u \<noteq> Some ''canceled'')"
proof -
  have ok: "pending_ok s" using assms by (rule reachable_pending_ok)
  have a: "\<forall>d. tasks s taskId = Some d \<longrightarrow> state_of d \<noteq> ''canceled''"
  proof (intro allI impI)
    fix d assume "tasks s taskId = Some d"
    with ok have "state_of d = ''working'' \<or> state_of d = ''completed'' \<or> state_of d = ''failed''"
      unfolding pending_ok_def by blast
    then show "state_of d \<noteq> ''canceled''" by auto
  qed
  then have b: "\<not> isCancelled taskId (tasks s)"
    by (simp add: isCancelled_def split: option.split)
  have c: "\<forall>u \<in> set (emitted (executeTask error_message taskId' skill message tbl)).
             upd_state u \<noteq> Some ''canceled''"
    using emitted_executeTask by fastforce
  from a b c show ?thesis by blast
qed

theorem canceled_unreachable_witness:
  "reachable node_error_message after_timer \<and> \<not> isCancelled ''u1'' (tasks after_timer) \<and>
   stored_state after_timer ''u1'' = Some ''completed''"
  using canceled_unreachable[OF reachable_after_timer, of "''u1''"] reachable_after_timer
  by (simp add: after_timer_eq stored_state_def merge_completed)

subsection \<open>Terminal states\<close>

lemma merge_update_state:
  "state_of (merge_update now u x) = hd (states_seen (state_of x) [u])"
  by (simp add: merge_update_def state_of_def Let_def split: option.split)

lemma run_states:
  "successively spec_transition
     (''submitted'' # states_seen ''submitted'' (emitted (executeTask em taskId skill message tbl)))"
  by (auto simp: executeTask_def handleTask_def working_update_def completed_update_def
        failed_update_def spec_transition_def terminalStates_def
        split: option.splits sum.splits)

lemma last_leg_emitted:
  assumes "last_leg rest"
  shows "(\<exists>t r. emitted rest = [completed_update t r]) \<or> (\<exists>x. emitted rest = [failed_update x])"
  using assms unfolding last_leg_def by auto blast

lemma last_leg_states:
  assumes "last_leg rest"
  shows "successively spec_transition (''working'' # states_seen ''working'' (emitted rest))"
  using last_leg_emitted[OF assms]
  by (auto simp: completed_update_def failed_update_def spec_transition_def)

lemma updateCallback_other:
  "t \<noteq> taskId \<Longrightarrow> snd (updateCallback taskId now u tbl) t = tbl t"
  by (simp add: updateCallback_def split: option.split)

lemma resume_merges:
  assumes "tasks s taskId = Some d"
  shows "tasks (resume taskId now acts s) taskId =
           Some (fold (merge_update now) (emitted (until_timer acts)) d)"
  using assms
proof (induction acts arbitrary: s d)
  case Nil
  then show ?case by simp
next
  case (Cons a acts)
  show ?case
  proof (cases a)
    case (Emit u)
    have "tasks (s\<lparr>tasks := snd (updateCallback taskId now u (tasks s))\<rparr>) taskId =
            Some (merge_update now u d)"
      using Cons.prems by (simp add: updateCallback_def)
    from Cons.IH[OF this] show ?thesis using Emit by simp
  next
    case Tick
    then show ?thesis using Cons by simp
  next
    case (Timer ms)
    then show ?thesis using Cons.prems by simp
  next
    case (Throw e)
    then show ?thesis using Cons.prems by simp
  qed
qed

lemma resume_others:
  "t \<noteq> taskId \<Longrightarrow> tasks (resume taskId now acts s) t = tasks s t"
proof (induction acts arbitrary: s)
  case Nil
  then show ?case by simp
next
  case (Cons a acts)
  then show ?case by (cases a) (simp_all add: updateCallback_other)
qed

lemma run_merges:
  assumes "tbl taskId = Some d"
  shows "tasks (resume taskId now (fst (run_sync taskId now acts tbl))
                  (s\<lparr>tasks := snd (run_sync taskId now acts tbl)\<rparr>)) taskId =
           Some (fold (merge_update now) (emitted (until_timer acts)) d)"
  using assms
proof (induction acts arbitrary: tbl d)
  case Nil
  then show ?case by simp
next
  case (Cons a acts)
  show ?case
  proof (cases a)
    case (Emit u)
    have "snd (updateCallback taskId now u tbl) taskId = Some (merge_update now u d)"
      using Cons.prems by (simp add: updateCallback_def)
    from Cons.IH[where tbl = "snd (updateCallback taskId now u tbl)"
        and d = "merge_update now u d", OF this]
    show ?thesis using Emit by simp
  next
    case Tick
    have "tasks (s\<lparr>tasks := tbl\<rparr>) taskId = Some d" using Cons.prems by simp
    from resume_merges[OF this, of now acts] show ?thesis using Tick by simp
  next
    case (Timer ms)
    then show ?thesis using Cons.prems by simp
  next
    case (Throw e)
    then show ?thesis using Cons.prems by simp
  qed
qed

lemma run_others:
  "t \<noteq> taskId \<Longrightarrow>
   tasks (resume taskId now (fst (run_sync taskId now acts tbl))
            (s\<lparr>tasks := snd (run_sync taskId now acts tbl)\<rparr>)) t = tbl t"
proof (induction acts arbitrary: tbl)
  case Nil
  then show ?case by simp
next
  case (Cons a acts)
  show ?case
  proof (cases a)
    case (Emit u)
    then show ?thesis using Cons by (simp add: updateCallback_other)
  next
    case Tick
    then show ?thesis using Cons.prems resume_others[of t taskId now acts "s\<lparr>tasks := tbl\<rparr>"] by simp
  next
    case (Timer ms)
    then show ?thesis by simp
  next
    case (Throw e)
    then show ?thesis by simp
  qed
qed

lemma request_merges:
  assumes "post_api em now uuid req s = (rsp, s1)"
  shows "s1 = s \<or>
         (\<exists>skill message.
            tasks s1 uuid =
              Some (fold (merge_update now)
                      (emitted (until_timer (executeTask em uuid skill message
                         ((tasks s)(uuid \<mapsto> submitted_record uuid now message)))))
                      (submitted_record uuid now message)) \<and>
            (\<forall>t. t \<noteq> uuid \<longrightarrow> tasks s1 t = tasks s t))"
proof -
  from post_api_effect[OF assms] show ?thesis
  proof
    assume "s1 = s" then show ?thesis by simp
  next
    assume "\<exists>params ident. \<not> nullish params \<and> tasks_send em now uuid params ident s = (rsp, s1)"
    then obtain params ident where p: "\<not> nullish params"
      and t: "tasks_send em now uuid params ident s = (rsp, s1)" by blast
    let ?skill = "get_prop params ''skill''"
    let ?message = "get_prop params ''message''"
    let ?d0 = "submitted_record uuid now ?message"
    let ?tbl = "(tasks s)(uuid \<mapsto> ?d0)"
    let ?acts = "executeTask em uuid ?skill ?message ?tbl"
    have s1: "s1 = resume uuid now (fst (run_sync uuid now ?acts ?tbl))
                     (s\<lparr>tasks := snd (run_sync uuid now ?acts ?tbl)\<rparr>)"
      using t p by (simp add: tasks_send_def Let_def submitted_record_def)
    have "?tbl uuid = Some ?d0" by simp
    from run_merges[where tbl = ?tbl and taskId = uuid and d = ?d0 and now = now
        and acts = ?acts and s = s, OF this]
    have 1: "tasks s1 uuid = Some (fold (merge_update now) (emitted (until_timer ?acts)) ?d0)"
      unfolding s1 .
    have 2: "\<forall>t. t \<noteq> uuid \<longrightarrow> tasks s1 t = tasks s t"
      unfolding s1 using run_others[of _ uuid now ?acts ?tbl s] by simp
    from 1 2 show ?thesis by blast
  qed
qed


text \<open>
  C5. For a task stored in a reachable state of the server and any turn of the event loop
  (a request or a timer): the task is still stored, a terminal state is kept, and a state
  that changes changes along the state graph. The updates the sink merges are those of the
  runs, and no update follows a terminal one: a task with a waiting run is not terminal,
  the turn of its timer merges exactly the updates the run has left, in their order, and
  the states these set form a path of the graph from the state the task is in; so do the
  states of every run of \<open>executeTask\<close> from \<open>submitted\<close>. A request either leaves the server as
  it is, or stores one record, made by merging into the new \<open>submitted\<close> record, in their
  order, exactly the updates its run emits before its first wait for a timer, and touches
  no other task. (The state a merge leaves is the one the update carries.)
\<close>

theorem terminal_state_is_final:
  assumes r: "reachable error_message s" and st: "step error_message s s'"
    and d: "tasks s taskId = Some d"
  shows "(\<exists>d'. tasks s' taskId = Some d' \<and>
            (state_of d \<in> set terminalStates \<longrightarrow> state_of d' = state_of d) \<and>
            (state_of d' = state_of d \<or> spec_transition (state_of d) (state_of d'))) \<and>
         (\<forall>i now. i < length (timers s) \<and> fst (timers s ! i) = taskId \<longrightarrow>
            state_of d \<notin> set terminalStates \<and>
            tasks (fire_timer now i s) taskId =
              Some (fold (merge_update now) (emitted (snd (timers s ! i))) d) \<and>
            successively spec_transition
              (state_of d # states_seen (state_of d) (emitted (snd (timers s ! i))))) \<and>
         (\<forall>now uuid req rsp s1. post_api error_message now uuid req s = (rsp, s1) \<longrightarrow>
            s1 = s \<or>
            (\<exists>skill' message'.
               tasks s1 uuid =
                 Some (fold (merge_update now)
                         (emitted (until_timer (executeTask error_message uuid skill' message'
                            ((tasks s)(uuid \<mapsto> submitted_record uuid now message')))))
                         (submitted_record uuid now message')) \<and>
               (\<forall>t. t \<noteq> uuid \<longrightarrow> tasks s1 t = tasks s t))) \<and>
         successively spec_transition
           (''submitted'' # states_seen ''submitted''
              (emitted (executeTask error_message taskId' skill message tbl))) \<and>
         (\<forall>now u x. state_of (merge_update now u x) = hd (states_seen (state_of x) [u]))"
proof -
  have ok: "pending_ok s" using r by (rule reachable_pending_ok)
  have A: "\<exists>d'. tasks s' taskId = Some d' \<and>
            (state_of d \<in> set terminalStates \<longrightarrow> state_of d' = state_of d) \<and>
            (state_of d' = state_of d \<or> spec_transition (state_of d) (state_of d'))"
    using st
  proof (cases rule: step.cases)
    case (request uuid now req rsp)
    then have ne: "taskId \<noteq> uuid" using d by auto
    from request_effect[OF request(2)] have "tasks s' taskId = tasks s taskId"
      using ne by auto
    then show ?thesis using d by simp
  next
    case (timer i now)
    from timer_effect[OF ok timer(2), of now] obtain t d0 k u where
      w: "tasks s t = Some d0" "state_of d0 = ''working''"
      and m: "state_of (merge_update now u d0) = ''completed'' \<or>
              state_of (merge_update now u d0) = ''failed''"
      and f: "fire_timer now i s =
             s\<lparr>timers := take i (timers s) @ drop (Suc i) (timers s),
               tasks := (tasks s)(t \<mapsto> merge_update now u d0)\<rparr>" by blast
    show ?thesis
    proof (cases "taskId = t")
      case True
      then have "d = d0" using d w by simp
      then have "state_of d = ''working''" using w by simp
      moreover have "tasks s' taskId = Some (merge_update now u d0)"
        using True timer(1) f by simp
      ultimately show ?thesis
        using m by (auto simp add: terminalStates_def spec_transition_def)
    next
      case False
      then have "tasks s' taskId = Some d" using timer(1) f d by simp
      then show ?thesis by simp
    qed
  qed
  have B: "\<forall>i now. i < length (timers s) \<and> fst (timers s ! i) = taskId \<longrightarrow>
            state_of d \<notin> set terminalStates \<and>
            tasks (fire_timer now i s) taskId =
              Some (fold (merge_update now) (emitted (snd (timers s ! i))) d) \<and>
            successively spec_transition
              (state_of d # states_seen (state_of d) (emitted (snd (timers s ! i))))"
  proof (intro allI impI)
    fix i now assume h: "i < length (timers s) \<and> fst (timers s ! i) = taskId"
    from timer_effect[OF ok conjunct1[OF h], of now] obtain t d0 k u where
      e: "timers s ! i = (t, k)" and l: "last_leg k"
      and k: "k = [Emit u, Tick] \<or> k = [Tick, Emit u, Tick]"
      and w: "tasks s t = Some d0" "state_of d0 = ''working''"
      and f: "fire_timer now i s =
             s\<lparr>timers := take i (timers s) @ drop (Suc i) (timers s),
               tasks := (tasks s)(t \<mapsto> merge_update now u d0)\<rparr>" by blast
    have t: "t = taskId" using h e by simp
    then have dd: "d0 = d" using w d by simp
    have em: "emitted k = [u]" using k by auto
    have 1: "state_of d \<notin> set terminalStates" using w dd by (simp add: terminalStates_def)
    have 2: "tasks (fire_timer now i s) taskId =
              Some (fold (merge_update now) (emitted (snd (timers s ! i))) d)"
      using f t dd e em by simp
    have 3: "successively spec_transition
              (state_of d # states_seen (state_of d) (emitted (snd (timers s ! i))))"
      using last_leg_states[OF l] w dd e by simp
    from 1 2 3 show "state_of d \<notin> set terminalStates \<and>
            tasks (fire_timer now i s) taskId =
              Some (fold (merge_update now) (emitted (snd (timers s ! i))) d) \<and>
            successively spec_transition
              (state_of d # states_seen (state_of d) (emitted (snd (timers s ! i))))"
      by blast
  qed
  have E: "\<forall>now uuid req rsp s1. post_api error_message now uuid req s = (rsp, s1) \<longrightarrow>
            s1 = s \<or>
            (\<exists>skill' message'.
               tasks s1 uuid =
                 Some (fold (merge_update now)
                         (emitted (until_timer (executeTask error_message uuid skill' message'
                            ((tasks s)(uuid \<mapsto> submitted_record uuid now message')))))
                         (submitted_record uuid now message')) \<and>
               (\<forall>t. t \<noteq> uuid \<longrightarrow> tasks s1 t = tasks s t))"
    by (intro allI impI) (rule request_merges)
  have C: "successively spec_transition
           (''submitted'' # states_seen ''submitted''
              (emitted (executeTask error_message taskId' skill message tbl)))"
    by (rule run_states)
  have D: "\<forall>now u x. state_of (merge_update now u x) = hd (states_seen (state_of x) [u])"
    by (intro allI) (rule merge_update_state)
  from A B E C D show ?thesis by (intro conjI)
qed

theorem terminal_state_is_final_witness:
  "reachable node_error_message after_timer \<and>
   step node_error_message after_timer after_second_send \<and>
   stored_state after_timer ''u1'' = Some ''completed'' \<and>
   ''completed'' \<in> set terminalStates \<and>
   stored_state after_second_send ''u1'' = Some ''completed'' \<and>
   reachable node_error_message after_send \<and>
   step node_error_message after_send after_timer \<and>
   stored_state after_send ''u1'' = Some ''working'' \<and>
   fst (timers after_send ! 0) = ''u1'' \<and>
   ''working'' \<notin> set terminalStates \<and>
   successively spec_transition [''working'', ''completed'']"
proof -
  let ?w = "merge_update 0 working_update
              (submitted_record ''u1'' 0 (JObj [(''role'', JStr ''user''),
                  (''parts'', JArr [text_part ''Please execute skill: add'',
                                    data_part (JObj [(''a'', JNum 5), (''b'', JNum 3)])])]))"
  let ?d = "merge_update 1000 (completed_update ''8'' (JNum 8)) ?w"
  have d: "tasks after_timer ''u1'' = Some ?d" by (simp add: after_timer_eq)
  have c: "state_of ?d = ''completed''" by (rule merge_completed(1))
  from terminal_state_is_final[OF reachable_after_timer step_after_timer d]
  have "\<exists>d'. tasks after_second_send ''u1'' = Some d' \<and>
            (state_of ?d \<in> set terminalStates \<longrightarrow> state_of d' = state_of ?d)"
    by blast
  then have 1: "stored_state after_second_send ''u1'' = Some ''completed''"
    unfolding c by (auto simp: stored_state_def terminalStates_def)
  have 2: "stored_state after_timer ''u1'' = Some ''completed''"
    using d c by (simp add: stored_state_def)
  have w: "tasks after_send ''u1'' = Some ?w" by (simp add: after_send_eq)
  have sw: "state_of ?w = ''working''" by (rule merge_working(1))
  have i: "0 < length (timers after_send) \<and> fst (timers after_send ! 0) = ''u1''"
    by (simp add: after_send_eq)
  from terminal_state_is_final[OF reachable_after_send step_after_send w]
  have "\<forall>i now. i < length (timers after_send) \<and> fst (timers after_send ! i) = ''u1'' \<longrightarrow>
          state_of ?w \<notin> set terminalStates \<and>
          successively spec_transition
            (state_of ?w # states_seen (state_of ?w) (emitted (snd (timers after_send ! i))))"
    by blast
  from this[rule_format, OF i]
  have "state_of ?w \<notin> set terminalStates \<and>
          successively spec_transition
            (state_of ?w # states_seen (state_of ?w) (emitted (snd (timers after_send ! 0))))" .
  then have 3: "''working'' \<notin> set terminalStates \<and>
                successively spec_transition [''working'', ''completed'']"
    unfolding sw by (simp add: after_send_eq completed_update_def)
  have 4: "stored_state after_send ''u1'' = Some ''working''"
    using w sw by (simp add: stored_state_def)
  from 1 2 3 4 i reachable_after_timer step_after_timer reachable_after_send step_after_send
  show ?thesis by (simp add: terminalStates_def)
qed

subsection \<open>The addition scenario\<close>

lemma in_remaining:
  assumes "i < length xs" "a \<in> set xs" "a \<noteq> xs ! i"
  shows "a \<in> set (take i xs @ drop (Suc i) xs)"
proof -
  have "xs = take i xs @ xs ! i # drop (Suc i) xs" using assms(1) by (rule id_take_nth_drop)
  then have "set xs = set (take i xs @ xs ! i # drop (Suc i) xs)" by (rule arg_cong)
  then have "a \<in> set (take i xs @ xs ! i # drop (Suc i) xs)" using assms(2) by blast
  then show ?thesis using assms(3) by auto
qed

lemma settles_step:
  assumes ok: "pending_ok s" and P: "settles u t0 x s" and st: "step em s s'"
  shows "settles u t0 x s'"
proof -
  from P obtain d where d: "tasks s u = Some d"
    and AB: "(state_of d = ''working'' \<and> artifacts_of d = [] \<and>
               (u, [Emit (completed_update t0 x), Tick]) \<in> set (timers s)) \<or>
             (state_of d = ''completed'' \<and> artifacts_of d = [calculation_result x])"
    by (auto simp: settles_def split: option.splits)
  from st show ?thesis
  proof (cases rule: step.cases)
    case (request uuid now req rsp)
    then have ne: "u \<noteq> uuid" using d by auto
    from request_effect[OF request(2)]
    have "tasks s' u = tasks s u \<and> set (timers s) \<subseteq> set (timers s')"
      using ne by auto
    then show ?thesis using d AB by (auto simp: settles_def)
  next
    case (timer i now)
    from timer_effect[OF ok timer(2), of now] obtain t d0 k u0 where
      e: "timers s ! i = (t, k)"
      and kk: "k = [Emit u0, Tick] \<or> k = [Tick, Emit u0, Tick]"
      and w: "tasks s t = Some d0" "state_of d0 = ''working''" "artifacts_of d0 = []"
      and f: "fire_timer now i s =
             s\<lparr>timers := take i (timers s) @ drop (Suc i) (timers s),
               tasks := (tasks s)(t \<mapsto> merge_update now u0 d0)\<rparr>" by blast
    have dist: "distinct (map fst (timers s))" using ok by (simp add: pending_ok_def)
    show ?thesis
    proof (cases "u = t")
      case True
      then have dd: "d = d0" using d w by simp
      then have A: "(u, [Emit (completed_update t0 x), Tick]) \<in> set (timers s)"
        using AB w by auto
      have "(t, k) \<in> set (timers s)"
        using e timer(2) by (metis nth_mem)
      with A True dist have "[Emit (completed_update t0 x), Tick] = k"
        using eq_key_imp_eq_value by fastforce
      then have "u0 = completed_update t0 x" using kk by auto
      then have "tasks s' u = Some (merge_update now (completed_update t0 x) d0)"
        using True timer(1) f by simp
      moreover have "state_of (merge_update now (completed_update t0 x) d0) = ''completed''"
        by (rule merge_completed(1))
      moreover have "artifacts_of (merge_update now (completed_update t0 x) d0) = [calculation_result x]"
        using merge_completed(2)[of now t0 x d0] w(3) by simp
      ultimately show ?thesis by (simp add: settles_def)
    next
      case False
      then have k: "tasks s' u = Some d" using timer(1) f d by simp
      from AB show ?thesis
      proof
        assume a: "state_of d = ''working'' \<and> artifacts_of d = [] \<and>
               (u, [Emit (completed_update t0 x), Tick]) \<in> set (timers s)"
        have "(u, [Emit (completed_update t0 x), Tick]) \<noteq> timers s ! i" using e False by simp
        with a timer(2) have "(u, [Emit (completed_update t0 x), Tick]) \<in> set (timers s')"
          using in_remaining timer(1) f by fastforce
        then show ?thesis using k a by (simp add: settles_def)
      next
        assume "state_of d = ''completed'' \<and> artifacts_of d = [calculation_result x]"
        then show ?thesis using k by (simp add: settles_def)
      qed
    qed
  qed
qed

lemma settles_steps:
  assumes "rtranclp (step em) s1 s2" "reachable em s1" "settles u t0 x s1"
  shows "reachable em s2 \<and> settles u t0 x s2"
  using assms
proof (induction rule: rtranclp_induct)
  case base
  then show ?case by simp
next
  case (step y z)
  then have "reachable em y" "settles u t0 x y" by simp_all
  then show ?case using step.hyps(2) settles_step reachable_pending_ok reach_step by blast
qed

lemma poll_stored:
  assumes "tasks s taskId = Some d"
  shows "post_api em now uuid (getTask_request ''test-api-key'' taskId False ident) s =
           (Some \<lparr>rsp_status = 200,
                  rsp_payload = Result \<lparr>tv_task = td_task d, tv_history = None\<rparr>,
                  rsp_id = JStr ident\<rparr>, s)"
  using assms
  by (simp add: post_api_def authenticateApiKey_def api_handler_def tasks_get_def
        getTask_request_def rpc_request_def)

lemma fire_pending:
  assumes "i < length (timers s)" "timers s ! i = (u, [Emit (completed_update t0 x), Tick])"
    "tasks s u = Some d"
  shows "tasks (fire_timer now i s) u = Some (merge_update now (completed_update t0 x) d)"
  using assms by (simp add: fire_timer_def updateCallback_def)

text \<open>
  C9. After \<open>tasks/send\<close> for \<open>add\<close> with the data part \<open>{a: 5, b: 3}\<close>, at any later
  time every poll of the task returns its record; if the state is terminal it is
  \<open>completed\<close> and the artifacts are exactly the one artifact whose data part is
  \<open>{result: 8}\<close>; and if it is not yet terminal, the run's timer is pending and its firing
  brings the task to exactly that.
\<close>

theorem add_5_3_completes_with_8:
  assumes r: "reachable error_message s" and fresh: "uuid \<notin> dom (tasks s)"
    and send: "post_api error_message now uuid
                 (sendTask_request ''test-api-key'' ''add'' (JObj [(''a'', JNum 5), (''b'', JNum 3)]) ident) s
               = (rsp, s1)"
    and run: "rtranclp (step error_message) s1 s2"
  shows "\<exists>t. (\<forall>now' uuid' ident'.
                 post_api error_message now' uuid' (getTask_request ''test-api-key'' uuid False ident') s2 =
                   (Some \<lparr>rsp_status = 200,
                          rsp_payload = Result \<lparr>tv_task = t, tv_history = None\<rparr>,
                          rsp_id = JStr ident'\<rparr>, s2)) \<and>
             (st_state (task_status t) \<in> set terminalStates \<longrightarrow>
                st_state (task_status t) = ''completed'' \<and>
                task_artifacts t = [calculation_result (JNum 8)]) \<and>
             (st_state (task_status t) \<notin> set terminalStates \<longrightarrow>
                (\<exists>i < length (timers s2). \<forall>now'.
                    stored_state (fire_timer now' i s2) uuid = Some ''completed'' \<and>
                    stored_artifacts (fire_timer now' i s2) uuid = Some [calculation_result (JNum 8)]))"
proof -
  let ?k = "[Emit (completed_update ''8'' (JNum 8)), Tick]"
  have st: "step error_message s s1" using fresh send by (rule step.request)
  then have r1: "reachable error_message s1" using r reach_step by blast
  let ?d = "merge_update now working_update
              (submitted_record uuid now (JObj [(''role'', JStr ''user''),
                  (''parts'', JArr [text_part ''Please execute skill: add'',
                                    data_part (JObj [(''a'', JNum 5), (''b'', JNum 3)])])]))"
  have s1: "s1 = s\<lparr>tasks := (tasks s)(uuid \<mapsto> ?d), timers := timers s @ [(uuid, ?k)]\<rparr>"
    using send unfolding send_add_5_3 by simp
  have "state_of ?d = ''working''" by (rule merge_working(1))
  moreover have "artifacts_of ?d = []"
    unfolding merge_working(2) by (simp add: artifacts_of_def submitted_record_def initial_task_def)
  ultimately have "settles uuid ''8'' (JNum 8) s1"
    unfolding s1 by (simp add: settles_def)
  with run r1 have r2: "reachable error_message s2" and P: "settles uuid ''8'' (JNum 8) s2"
    using settles_steps by blast+
  from P obtain d where d: "tasks s2 uuid = Some d"
    and AB: "(state_of d = ''working'' \<and> artifacts_of d = [] \<and> (uuid, ?k) \<in> set (timers s2)) \<or>
             (state_of d = ''completed'' \<and> artifacts_of d = [calculation_result (JNum 8)])"
    by (auto simp: settles_def split: option.splits)
  have poll: "\<forall>now' uuid' ident'.
                 post_api error_message now' uuid' (getTask_request ''test-api-key'' uuid False ident') s2 =
                   (Some \<lparr>rsp_status = 200,
                          rsp_payload = Result \<lparr>tv_task = td_task d, tv_history = None\<rparr>,
                          rsp_id = JStr ident'\<rparr>, s2)"
    using poll_stored[OF d] by blast
  have fin: "st_state (task_status (td_task d)) \<in> set terminalStates \<longrightarrow>
                st_state (task_status (td_task d)) = ''completed'' \<and>
                task_artifacts (td_task d) = [calculation_result (JNum 8)]"
    using AB by (auto simp: state_of_def artifacts_of_def terminalStates_def)
  have live: "st_state (task_status (td_task d)) \<notin> set terminalStates \<longrightarrow>
                (\<exists>i < length (timers s2). \<forall>now'.
                    stored_state (fire_timer now' i s2) uuid = Some ''completed'' \<and>
                    stored_artifacts (fire_timer now' i s2) uuid = Some [calculation_result (JNum 8)])"
  proof
    assume "st_state (task_status (td_task d)) \<notin> set terminalStates"
    then have w: "artifacts_of d = []" and m: "(uuid, ?k) \<in> set (timers s2)"
      using AB by (auto simp: state_of_def terminalStates_def)
    from m obtain i where i: "i < length (timers s2)" "timers s2 ! i = (uuid, ?k)"
      by (auto simp: in_set_conv_nth)
    have "\<forall>now'. stored_state (fire_timer now' i s2) uuid = Some ''completed'' \<and>
                 stored_artifacts (fire_timer now' i s2) uuid = Some [calculation_result (JNum 8)]"
      using fire_pending[OF i d] w
      by (simp add: stored_state_def stored_artifacts_def merge_completed)
    then show "\<exists>i < length (timers s2). \<forall>now'.
                    stored_state (fire_timer now' i s2) uuid = Some ''completed'' \<and>
                    stored_artifacts (fire_timer now' i s2) uuid = Some [calculation_result (JNum 8)]"
      using i(1) by blast
  qed
  from poll fin live show ?thesis by blast
qed

lemma steps_after_send: "rtranclp (step node_error_message) after_send after_timer"
proof -
  have "step node_error_message after_send after_timer"
    unfolding after_timer_def by (rule step.timer) (simp add: after_send_eq)
  then show ?thesis by (rule r_into_rtranclp)
qed

theorem add_5_3_completes_with_8_witness:
  "reachable node_error_message server_start \<and> ''u1'' \<notin> dom (tasks server_start) \<and>
   rtranclp (step node_error_message) after_send after_timer \<and>
   (\<exists>t. post_api node_error_message 1500 ''u2'' (getTask_request ''test-api-key'' ''u1'' False ''2'') after_timer =
           (Some \<lparr>rsp_status = 200, rsp_payload = Result \<lparr>tv_task = t, tv_history = None\<rparr>,
                  rsp_id = JStr ''2''\<rparr>, after_timer) \<and>
        st_state (task_status t) = ''completed'' \<and>
        task_artifacts t = [calculation_result (JNum 8)]) \<and>
   stored_state after_send ''u1'' = Some ''working'' \<and>
   (\<exists>i < length (timers after_send).
       stored_state (fire_timer 1000 i after_send) ''u1'' = Some ''completed'' \<and>
       stored_artifacts (fire_timer 1000 i after_send) ''u1'' = Some [calculation_result (JNum 8)])"
proof -
  let ?w = "merge_update 0 working_update
              (submitted_record ''u1'' 0 (JObj [(''role'', JStr ''user''),
                  (''parts'', JArr [text_part ''Please execute skill: add'',
                                    data_part (JObj [(''a'', JNum 5), (''b'', JNum 3)])])]))"
  have f: "''u1'' \<notin> dom (tasks server_start)" by (simp add: server_start_def)
  have p: "post_api node_error_message 0 ''u1''
             (sendTask_request ''test-api-key'' ''add'' (JObj [(''a'', JNum 5), (''b'', JNum 3)]) ''1'') server_start
           = (fst (post_api node_error_message 0 ''u1'' add_5_3 server_start), after_send)"
    by (simp add: after_send_def add_5_3_def)
  from add_5_3_completes_with_8[OF reach_start f p steps_after_send]
  obtain t where t: "\<forall>now' uuid' ident'.
        post_api node_error_message now' uuid' (getTask_request ''test-api-key'' ''u1'' False ident') after_timer =
          (Some \<lparr>rsp_status = 200, rsp_payload = Result \<lparr>tv_task = t, tv_history = None\<rparr>,
                 rsp_id = JStr ident'\<rparr>, after_timer)"
    and c: "st_state (task_status t) \<in> set terminalStates \<longrightarrow>
              st_state (task_status t) = ''completed'' \<and> task_artifacts t = [calculation_result (JNum 8)]"
    by blast
  have "tasks after_timer ''u1'' = Some (merge_update 1000 (completed_update ''8'' (JNum 8)) ?w)"
    by (simp add: after_timer_eq)
  from poll_stored[OF this, of node_error_message 1500 "''u2''" "''2''"] t
  have "t = td_task (merge_update 1000 (completed_update ''8'' (JNum 8)) ?w)"
    by simp
  then have "st_state (task_status t) = ''completed''"
    using merge_completed(1) by (simp add: state_of_def)
  with c have fin: "st_state (task_status t) = ''completed'' \<and> task_artifacts t = [calculation_result (JNum 8)]"
    by (simp add: terminalStates_def)
  have stored: "tasks after_send ''u1'' = Some ?w" by (simp add: after_send_eq)
  have working: "state_of ?w = ''working''" by (rule merge_working(1))
  from add_5_3_completes_with_8[OF reach_start f p rtranclp.rtrancl_refl]
  obtain t' where t': "\<forall>now' uuid' ident'.
        post_api node_error_message now' uuid' (getTask_request ''test-api-key'' ''u1'' False ident') after_send =
          (Some \<lparr>rsp_status = 200, rsp_payload = Result \<lparr>tv_task = t', tv_history = None\<rparr>,
                 rsp_id = JStr ident'\<rparr>, after_send)"
    and l: "st_state (task_status t') \<notin> set terminalStates \<longrightarrow>
              (\<exists>i < length (timers after_send). \<forall>now'.
                  stored_state (fire_timer now' i after_send) ''u1'' = Some ''completed'' \<and>
                  stored_artifacts (fire_timer now' i after_send) ''u1'' = Some [calculation_result (JNum 8)])"
    by blast
  from poll_stored[OF stored, of node_error_message 1500 "''u2''" "''2''"] t'
  have "t' = td_task ?w" by simp
  then have "st_state (task_status t') \<notin> set terminalStates"
    using working by (simp add: state_of_def terminalStates_def)
  with l have pending: "\<exists>i < length (timers after_send).
       stored_state (fire_timer 1000 i after_send) ''u1'' = Some ''completed'' \<and>
       stored_artifacts (fire_timer 1000 i after_send) ''u1'' = Some [calculation_result (JNum 8)]"
    by blast
  have "stored_state after_send ''u1'' = Some ''working''"
    using stored working by (simp add: stored_state_def)
  with fin pending t f reach_start steps_after_send show ?thesis by blast
qed

subsection \<open>An unknown skill\<close>

text \<open>
  C6 (as amended). A run of \<open>tasks/send\<close> for a skill other than \<open>add\<close> emits exactly one
  update, with state \<open>failed\<close>, and waits for no timer; the stored record is the submitted
  record with that one update merged, and the response shows \<open>failed\<close>, or \<open>submitted\<close>
  when the handler throws, never \<open>working\<close>. The text of the update is \<open>Unknown skill: \<close>
  followed by the skill when the parts of the message can be searched and the skill can
  be converted to a string, and \<open>Error: \<close> followed by the engine's text of the fault when
  the handler throws on one of the two.
\<close>

theorem unknown_skill_fails:
  assumes auth: "api_key req = Some ''test-api-key''"
    and meth: "get_prop (body req) ''method'' = JStr ''tasks/send''"
    and params: "\<not> nullish (get_prop (body req) ''params'')"
    and skill: "get_prop (get_prop (body req) ''params'') ''skill'' = skill"
    and message: "get_prop (get_prop (body req) ''params'') ''message'' = message"
    and unknown: "skill \<noteq> JStr ''add''"
  shows "emitted (executeTask error_message uuid skill message
                    ((tasks s)(uuid \<mapsto> submitted_record uuid now message))) =
           [failed_update (failure_text error_message skill message)] \<and>
         timer_waits (executeTask error_message uuid skill message
                    ((tasks s)(uuid \<mapsto> submitted_record uuid now message))) = [] \<and>
         snd (post_api error_message now uuid req s) =
           s\<lparr>tasks := (tasks s)(uuid \<mapsto>
                merge_update now (failed_update (failure_text error_message skill message))
                  (submitted_record uuid now message))\<rparr> \<and>
         (\<exists>t. fst (post_api error_message now uuid req s) = Some (ok_response t (get_prop (body req) ''id'')) \<and>
              st_state (task_status t) =
                (if throws_at_once skill message then ''submitted'' else ''failed'')) \<and>
         (\<forall>p t. message_params message = Inr p \<and> js_to_string skill = Inr t \<longrightarrow>
              failure_text error_message skill message = ''Unknown skill: '' @ t \<and>
              sublist t (failure_text error_message skill message)) \<and>
         (throws_at_once skill message \<longrightarrow>
              (\<exists>e. failure_text error_message skill message = ''Error: '' @ error_message e))"
proof -
  let ?params = "get_prop (body req) ''params''"
  let ?ident = "get_prop (body req) ''id''"
  let ?P = "\<lambda>skill message. emitted (executeTask error_message uuid skill message
                    ((tasks s)(uuid \<mapsto> submitted_record uuid now message))) =
           [failed_update (failure_text error_message skill message)] \<and>
         timer_waits (executeTask error_message uuid skill message
                    ((tasks s)(uuid \<mapsto> submitted_record uuid now message))) = [] \<and>
         snd (post_api error_message now uuid req s) =
           s\<lparr>tasks := (tasks s)(uuid \<mapsto>
                merge_update now (failed_update (failure_text error_message skill message))
                  (submitted_record uuid now message))\<rparr> \<and>
         (\<exists>t. fst (post_api error_message now uuid req s) = Some (ok_response t (get_prop (body req) ''id'')) \<and>
              st_state (task_status t) =
                (if throws_at_once skill message then ''submitted'' else ''failed'')) \<and>
         (\<forall>p t. message_params message = Inr p \<and> js_to_string skill = Inr t \<longrightarrow>
              failure_text error_message skill message = ''Unknown skill: '' @ t \<and>
              sublist t (failure_text error_message skill message)) \<and>
         (throws_at_once skill message \<longrightarrow>
              (\<exists>e. failure_text error_message skill message = ''Error: '' @ error_message e))"
  have "?P (get_prop ?params ''skill'') (get_prop ?params ''message'')"
  proof -
    let ?skill = "get_prop ?params ''skill''"
    let ?message = "get_prop ?params ''message''"
    let ?d0 = "submitted_record uuid now ?message"
    let ?tbl = "(tasks s)(uuid \<mapsto> ?d0)"
    let ?u = "failed_update (failure_text error_message ?skill ?message)"
    have unknown': "?skill \<noteq> JStr ''add''" using unknown skill by simp
    have st: "?tbl uuid \<noteq> None" by simp
    have "\<not> nullish (body req)" using meth by (rule get_prop_not_nullish)
    then have "api_handler error_message now uuid req s = tasks_send error_message now uuid ?params ?ident s"
      using meth by (simp add: api_handler_def)
    then have p: "post_api error_message now uuid req s = tasks_send error_message now uuid ?params ?ident s"
      using auth by (simp add: post_api_def authenticate_accepts)
    have m: "\<forall>p t. message_params ?message = Inr p \<and> js_to_string ?skill = Inr t \<longrightarrow>
                failure_text error_message ?skill ?message = ''Unknown skill: '' @ t \<and>
                sublist t (failure_text error_message ?skill ?message)"
    proof (intro allI impI)
      fix p t assume "message_params ?message = Inr p \<and> js_to_string ?skill = Inr t"
      then have eq: "failure_text error_message ?skill ?message = ''Unknown skill: '' @ t"
        by (simp only: failure_text_def sum.case)
      show "failure_text error_message ?skill ?message = ''Unknown skill: '' @ t \<and>
            sublist t (failure_text error_message ?skill ?message)"
        unfolding eq by (intro conjI refl sublist_append_leftI)
    qed
    show ?thesis
    proof (cases "throws_at_once ?skill ?message")
      case True
      from executeTask_throws[where tbl = ?tbl and taskId = uuid and em = error_message,
          OF st unknown' True]
      obtain e where e: "executeTask error_message uuid ?skill ?message ?tbl =
          [Tick, Emit (failed_update (''Error: '' @ error_message e)), Tick]"
        and ft: "failure_text error_message ?skill ?message = ''Error: '' @ error_message e" by blast
      have e': "executeTask error_message uuid ?skill ?message ?tbl = [Tick, Emit ?u, Tick]"
        using e ft by simp
      have 1: "emitted (executeTask error_message uuid ?skill ?message ?tbl) = [?u]"
        and 2: "timer_waits (executeTask error_message uuid ?skill ?message ?tbl) = []"
        unfolding e' by simp_all
      have ts: "tasks_send error_message now uuid ?params ?ident s =
          (Some (ok_response (initial_task uuid now) ?ident),
           s\<lparr>tasks := (tasks s)(uuid \<mapsto> merge_update now ?u ?d0)\<rparr>)"
        by (rule tasks_send_caught[OF params e'])
      have 3: "snd (post_api error_message now uuid req s) =
          s\<lparr>tasks := (tasks s)(uuid \<mapsto> merge_update now ?u ?d0)\<rparr>"
        unfolding p ts by simp
      have "fst (post_api error_message now uuid req s) = Some (ok_response (initial_task uuid now) ?ident)"
        unfolding p ts by simp
      moreover have "st_state (task_status (initial_task uuid now)) = ''submitted''"
        by (simp add: initial_task_def)
      ultimately have 4: "\<exists>t. fst (post_api error_message now uuid req s) = Some (ok_response t ?ident) \<and>
                st_state (task_status t) =
                  (if throws_at_once ?skill ?message then ''submitted'' else ''failed'')"
        using True by (intro exI[of _ "initial_task uuid now"]) simp
      have 5: "throws_at_once ?skill ?message \<longrightarrow>
                (\<exists>e. failure_text error_message ?skill ?message = ''Error: '' @ error_message e)"
        using ft by blast
      from 1 2 3 4 m 5 show ?thesis by blast
    next
      case False
      have e: "executeTask error_message uuid ?skill ?message ?tbl = [Emit ?u, Tick]"
        by (rule executeTask_unknown[where tbl = ?tbl and taskId = uuid and em = error_message,
              OF st unknown' False])
      have 1: "emitted (executeTask error_message uuid ?skill ?message ?tbl) = [?u]"
        and 2: "timer_waits (executeTask error_message uuid ?skill ?message ?tbl) = []"
        unfolding e by simp_all
      have ts: "tasks_send error_message now uuid ?params ?ident s =
          (Some (ok_response (td_task (merge_update now ?u ?d0)) ?ident),
           s\<lparr>tasks := (tasks s)(uuid \<mapsto> merge_update now ?u ?d0)\<rparr>)"
        by (rule tasks_send_emits[OF params e])
      have 3: "snd (post_api error_message now uuid req s) =
          s\<lparr>tasks := (tasks s)(uuid \<mapsto> merge_update now ?u ?d0)\<rparr>"
        unfolding p ts by simp
      have "fst (post_api error_message now uuid req s) =
          Some (ok_response (td_task (merge_update now ?u ?d0)) ?ident)"
        unfolding p ts by simp
      moreover have "st_state (task_status (td_task (merge_update now ?u ?d0))) = ''failed''"
        using merge_failed(1)[of now _ ?d0] by (simp add: state_of_def)
      ultimately have 4: "\<exists>t. fst (post_api error_message now uuid req s) = Some (ok_response t ?ident) \<and>
                st_state (task_status t) =
                  (if throws_at_once ?skill ?message then ''submitted'' else ''failed'')"
        using False by (intro exI[of _ "td_task (merge_update now ?u ?d0)"]) simp
      from 1 2 3 4 m False show ?thesis by blast
    qed
  qed
  then show ?thesis unfolding skill message .
qed


theorem unknown_skill_fails_witness:
  "api_key (sendTask_request ''test-api-key'' ''subtract'' (JObj [(''a'', JNum 5), (''b'', JNum 3)]) ''1'') = Some ''test-api-key'' \<and>
   JStr ''subtract'' \<noteq> JStr ''add'' \<and>
   stored_state (snd (post_api node_error_message 0 ''u1''
      (sendTask_request ''test-api-key'' ''subtract'' (JObj [(''a'', JNum 5), (''b'', JNum 3)]) ''1'') server_start)) ''u1''
     = Some ''failed'' \<and>
   stored_message (snd (post_api node_error_message 0 ''u1''
      (sendTask_request ''test-api-key'' ''subtract'' (JObj [(''a'', JNum 5), (''b'', JNum 3)]) ''1'') server_start)) ''u1''
     = Some (agent_message ''Unknown skill: subtract'') \<and>
   throws_at_once (JObj [(''toString'', JNum 1)])
     (JObj [(''role'', JStr ''user''), (''parts'', JArr [text_part ''hello''])]) \<and>
   stored_message (snd (post_api node_error_message 0 ''u1'' object_skill server_start)) ''u1''
     = Some (agent_message ''Error: Cannot convert object to primitive value'')"
proof -
  let ?req = "sendTask_request ''test-api-key'' ''subtract'' (JObj [(''a'', JNum 5), (''b'', JNum 3)]) ''1''"
  let ?message = "JObj [(''role'', JStr ''user''),
                  (''parts'', JArr [text_part ''Please execute skill: subtract'',
                                    data_part (JObj [(''a'', JNum 5), (''b'', JNum 3)])])]"
  have a: "api_key ?req = Some ''test-api-key''"
    and m: "get_prop (body ?req) ''method'' = JStr ''tasks/send''"
    and p: "\<not> nullish (get_prop (body ?req) ''params'')"
    and k: "get_prop (get_prop (body ?req) ''params'') ''skill'' = JStr ''subtract''"
    and g: "get_prop (get_prop (body ?req) ''params'') ''message'' = ?message"
    and u: "JStr ''subtract'' \<noteq> JStr ''add''"
    by (simp_all add: sendTask_request_def rpc_request_def)
  have t: "failure_text node_error_message (JStr ''subtract'') ?message = ''Unknown skill: subtract''"
    by (simp add: failure_text_def message_params_def text_part_def data_part_def js_or_def)
  from unknown_skill_fails[OF a m p k g u, of node_error_message "''u1''" server_start 0]
  have "snd (post_api node_error_message 0 ''u1'' ?req server_start) =
           server_start\<lparr>tasks := (tasks server_start)(''u1'' \<mapsto>
                merge_update 0 (failed_update ''Unknown skill: subtract'')
                  (submitted_record ''u1'' 0 ?message))\<rparr>"
    unfolding t by blast
  then have first: "stored_state (snd (post_api node_error_message 0 ''u1'' ?req server_start)) ''u1''
       = Some ''failed''"
    "stored_message (snd (post_api node_error_message 0 ''u1'' ?req server_start)) ''u1''
       = Some (agent_message ''Unknown skill: subtract'')"
    by (simp_all add: stored_state_def stored_message_def merge_failed)
  let ?skill' = "JObj [(''toString'', JNum 1)]"
  let ?message' = "JObj [(''role'', JStr ''user''), (''parts'', JArr [text_part ''hello''])]"
  have a': "api_key object_skill = Some ''test-api-key''"
    and m': "get_prop (body object_skill) ''method'' = JStr ''tasks/send''"
    and p': "\<not> nullish (get_prop (body object_skill) ''params'')"
    and k': "get_prop (get_prop (body object_skill) ''params'') ''skill'' = ?skill'"
    and g': "get_prop (get_prop (body object_skill) ''params'') ''message'' = ?message'"
    and u': "?skill' \<noteq> JStr ''add''"
    by (simp_all add: object_skill_def rpc_request_def)
  have th: "throws_at_once ?skill' ?message'"
    by (simp add: throws_at_once_def message_params_def text_part_def js_or_def)
  have t': "failure_text node_error_message ?skill' ?message' =
              ''Error: Cannot convert object to primitive value''"
    by (simp add: failure_text_def message_params_def text_part_def js_or_def)
  from unknown_skill_fails[OF a' m' p' k' g' u', of node_error_message "''u1''" server_start 0]
  have "snd (post_api node_error_message 0 ''u1'' object_skill server_start) =
           server_start\<lparr>tasks := (tasks server_start)(''u1'' \<mapsto>
                merge_update 0 (failed_update ''Error: Cannot convert object to primitive value'')
                  (submitted_record ''u1'' 0 ?message'))\<rparr>"
    unfolding t' by blast
  then have "stored_message (snd (post_api node_error_message 0 ''u1'' object_skill server_start)) ''u1''
       = Some (agent_message ''Error: Cannot convert object to primitive value'')"
    by (simp add: stored_message_def merge_failed)
  with first th a u show ?thesis by blast
qed

text \<open>With a message without \<open>parts\<close> the status message is the fault's, which does not
  mention the skill.\<close>

theorem unknown_skill_message_counterexample:
  "stored_state (snd (post_api node_error_message 0 ''u1'' subtract_without_parts server_start)) ''u1''
     = Some ''failed'' \<and>
   stored_message (snd (post_api node_error_message 0 ''u1'' subtract_without_parts server_start)) ''u1''
     = Some (agent_message (''Error: '' @ node_error_message (CannotRead JUndef ''find''))) \<and>
   \<not> sublist ''subtract'' (''Error: '' @ node_error_message (CannotRead JUndef ''find''))"
proof -
  let ?params = "get_prop (body subtract_without_parts) ''params''"
  let ?x = "''Error: '' @ node_error_message (CannotRead JUndef ''find'')"
  have a: "api_key subtract_without_parts = Some ''test-api-key''"
    and b: "\<not> nullish (body subtract_without_parts)"
    and m: "get_prop (body subtract_without_parts) ''method'' = JStr ''tasks/send''"
    and p: "\<not> nullish ?params"
    and q: "message_params (get_prop ?params ''message'') = Inl (CannotRead JUndef ''find'')"
    by (simp_all add: subtract_without_parts_def rpc_request_def message_params_def)
  have e: "executeTask node_error_message ''u1'' (get_prop ?params ''skill'') (get_prop ?params ''message'')
             ((tasks server_start)(''u1'' \<mapsto> submitted_record ''u1'' 0 (get_prop ?params ''message''))) =
           [Tick, Emit (failed_update ?x), Tick]"
    by (rule executeTask_throws_add[OF _ q]) simp
  have "post_api node_error_message 0 ''u1'' subtract_without_parts server_start =
          tasks_send node_error_message 0 ''u1'' ?params (get_prop (body subtract_without_parts) ''id'') server_start"
    using a b m by (simp add: post_api_def authenticate_accepts api_handler_def)
  then have "stored_state (snd (post_api node_error_message 0 ''u1'' subtract_without_parts server_start)) ''u1''
     = Some ''failed''"
   and "stored_message (snd (post_api node_error_message 0 ''u1'' subtract_without_parts server_start)) ''u1''
     = Some (agent_message ?x)"
    unfolding tasks_send_caught[OF p e]
    by (simp_all add: stored_state_def stored_message_def merge_failed)
  moreover have "\<not> sublist ''subtract'' ?x"
    by (simp add: sublist_code prefix_code)
  ultimately show ?thesis by blast
qed

subsection \<open>Waiting for completion\<close>

lemma waitForCompletion_skip:
  assumes "\<forall>(t, p) \<in> set pre. t - startTime \<le> maxWaitMs \<and>
             (\<exists>v. rsp_payload p = Result v \<and> st_state (task_status (tv_task v)) \<notin> set terminalStates)"
  shows "waitForCompletion taskId maxWaitMs pollIntervalMs startTime (pre @ polls) =
         waitForCompletion taskId maxWaitMs pollIntervalMs startTime polls"
  using assms
proof (induction pre)
  case Nil
  then show ?case by simp
next
  case (Cons a pre)
  obtain t p where a: "a = (t, p)" by (cases a)
  from Cons.prems a obtain v where "t - startTime \<le> maxWaitMs" "rsp_payload p = Result v"
    "st_state (task_status (tv_task v)) \<notin> set terminalStates" by auto
  then have "waitForCompletion taskId maxWaitMs pollIntervalMs startTime ((t, p) # pre @ polls) =
             waitForCompletion taskId maxWaitMs pollIntervalMs startTime (pre @ polls)"
    by (simp add: sendRequest_result_def)
  then show ?case using Cons a by simp
qed

lemma blog_waitForCompletion_skip:
  assumes "\<forall>(t, p) \<in> set pre. t - startTime \<le> maxWaitMs \<and>
             (\<exists>v. rsp_payload p = Result v \<and> st_state (task_status (tv_task v)) \<notin> set terminalStates)"
    and "\<forall>(t, p) \<in> set pre. \<forall>v. rsp_payload p = Result v \<longrightarrow> (\<exists>l. blog_log v = Inr l)"
  shows "blog_waitForCompletion taskId maxWaitMs startTime (pre @ polls) =
         blog_waitForCompletion taskId maxWaitMs startTime polls"
  using assms
proof (induction pre)
  case Nil
  then show ?case by simp
next
  case (Cons a pre)
  obtain t p where a: "a = (t, p)" by (cases a)
  from Cons.prems a obtain v l where "t - startTime \<le> maxWaitMs" "rsp_payload p = Result v"
    "st_state (task_status (tv_task v)) \<notin> set terminalStates" "blog_log v = Inr l" by fastforce
  then have "blog_waitForCompletion taskId maxWaitMs startTime ((t, p) # pre @ polls) =
             blog_waitForCompletion taskId maxWaitMs startTime (pre @ polls)"
    by (simp add: sendRequest_result_def terminalStates_def)
  then show ?case using Cons a by simp
qed

text \<open>
  C2 (as amended). When every earlier poll was in time and not terminal, and a poll in
  time sees a terminal state: \<open>A2AClient.waitForCompletion\<close> returns the record on
  \<open>completed\<close> and on \<open>canceled\<close>, and fails on \<open>failed\<close> and \<open>rejected\<close>, with the error
  \<open>Task failed: \<close> and the text of the first part of the agent's last status message
  (\<open>Unknown error\<close> without such a text), or with the TypeError of reading or converting
  that text. \<open>BlogClient.waitForCompletion\<close>, when it could log the status text of every
  earlier poll, fails with the TypeError of reading or converting the text when it cannot
  log this one, and else returns the record on \<open>completed\<close> and \<open>canceled\<close> and fails with
  \<open>Task failed: \<close> and the status text on \<open>failed\<close>.
\<close>

theorem waitForCompletion_terminal:
  assumes pre: "\<forall>(t, p) \<in> set pre. t - startTime \<le> maxWaitMs \<and>
             (\<exists>v. rsp_payload p = Result v \<and> st_state (task_status (tv_task v)) \<notin> set terminalStates)"
    and now: "now - startTime \<le> maxWaitMs"
    and res: "rsp_payload r = Result v"
    and fin: "st_state (task_status (tv_task v)) \<in> set terminalStates"
  shows "waitForCompletion taskId maxWaitMs pollIntervalMs startTime (pre @ (now, r) # rest) =
           Some (if st_state (task_status (tv_task v)) = ''failed''
                    \<or> st_state (task_status (tv_task v)) = ''rejected''
                 then (case failure_message v of
                         Inl f \<Rightarrow> Inl (TypeError f)
                       | Inr m \<Rightarrow> Inl (Error_msg m))
                 else Inr v) \<and>
         ((\<forall>(t, p) \<in> set pre. \<forall>v. rsp_payload p = Result v \<longrightarrow> (\<exists>l. blog_log v = Inr l)) \<and>
          st_state (task_status (tv_task v)) \<noteq> ''rejected'' \<longrightarrow>
          blog_waitForCompletion taskId maxWaitMs startTime (pre @ (now, r) # rest) =
            Some (case blog_log v of
                    Inl f \<Rightarrow> Inl (TypeError f)
                  | Inr l \<Rightarrow>
                      if st_state (task_status (tv_task v)) = ''failed''
                      then (case blog_failure_message v of
                              Inl f \<Rightarrow> Inl (TypeError f)
                            | Inr m \<Rightarrow> Inl (Error_msg m))
                      else Inr v))"
proof -
  let ?state = "st_state (task_status (tv_task v))"
  have a: "waitForCompletion taskId maxWaitMs pollIntervalMs startTime (pre @ (now, r) # rest) =
           waitForCompletion taskId maxWaitMs pollIntervalMs startTime ((now, r) # rest)"
    using pre by (rule waitForCompletion_skip)
  have a': "waitForCompletion taskId maxWaitMs pollIntervalMs startTime ((now, r) # rest) =
           Some (if ?state = ''failed'' \<or> ?state = ''rejected''
                 then (case failure_message v of
                         Inl f \<Rightarrow> Inl (TypeError f)
                       | Inr m \<Rightarrow> Inl (Error_msg m))
                 else Inr v)"
    using now res fin by (simp add: sendRequest_result_def split: sum.split)
  have b: "(\<forall>(t, p) \<in> set pre. \<forall>v. rsp_payload p = Result v \<longrightarrow> (\<exists>l. blog_log v = Inr l)) \<and>
          ?state \<noteq> ''rejected'' \<longrightarrow>
          blog_waitForCompletion taskId maxWaitMs startTime (pre @ (now, r) # rest) =
            Some (case blog_log v of
                    Inl f \<Rightarrow> Inl (TypeError f)
                  | Inr l \<Rightarrow>
                      if ?state = ''failed''
                      then (case blog_failure_message v of
                              Inl f \<Rightarrow> Inl (TypeError f)
                            | Inr m \<Rightarrow> Inl (Error_msg m))
                      else Inr v)"
  proof
    assume h: "(\<forall>(t, p) \<in> set pre. \<forall>v. rsp_payload p = Result v \<longrightarrow> (\<exists>l. blog_log v = Inr l)) \<and>
          ?state \<noteq> ''rejected''"
    have "blog_waitForCompletion taskId maxWaitMs startTime (pre @ (now, r) # rest) =
          blog_waitForCompletion taskId maxWaitMs startTime ((now, r) # rest)"
      using pre conjunct1[OF h] by (rule blog_waitForCompletion_skip)
    also have "\<dots> = Some (case blog_log v of
                    Inl f \<Rightarrow> Inl (TypeError f)
                  | Inr l \<Rightarrow>
                      if ?state = ''failed''
                      then (case blog_failure_message v of
                              Inl f \<Rightarrow> Inl (TypeError f)
                            | Inr m \<Rightarrow> Inl (Error_msg m))
                      else Inr v)"
      using now res fin conjunct2[OF h]
      by (auto simp add: sendRequest_result_def terminalStates_def split: sum.split)
    finally show "blog_waitForCompletion taskId maxWaitMs startTime (pre @ (now, r) # rest) =
            Some (case blog_log v of
                    Inl f \<Rightarrow> Inl (TypeError f)
                  | Inr l \<Rightarrow>
                      if ?state = ''failed''
                      then (case blog_failure_message v of
                              Inl f \<Rightarrow> Inl (TypeError f)
                            | Inr m \<Rightarrow> Inl (Error_msg m))
                      else Inr v)" .
  qed
  from a a' b show ?thesis by simp
qed

text \<open>On \<open>canceled\<close> the call returns the record.\<close>

theorem waitForCompletion_canceled_counterexample:
  "waitForCompletion ''t1'' 30000 1000 0
      [(5, poll_response ''t1'' ''canceled'' (Some (agent_message ''Stopped by the operator'')))] =
   Some (Inr \<lparr>tv_task = \<lparr>task_id = ''t1'',
                 task_status = \<lparr>st_state = ''canceled'', st_timestamp = 0,
                                st_message = Some (agent_message ''Stopped by the operator'')\<rparr>,
                 task_artifacts = []\<rparr>,
               tv_history = None\<rparr>)"
  by (simp add: poll_response_def sendRequest_result_def terminalStates_def)

theorem waitForCompletion_terminal_witness:
  "waitForCompletion ''t1'' 30000 1000 0
      [(5, poll_response ''t1'' ''working'' (Some (agent_message ''Calculating sum...''))),
       (1010, poll_response ''t1'' ''failed'' (Some (agent_message ''Unknown skill: subtract'')))] =
     Some (Inl (Error_msg ''Task failed: Unknown skill: subtract'')) \<and>
   blog_waitForCompletion ''t1'' 30000 0
      [(5, poll_response ''t1'' ''working'' (Some (agent_message ''Calculating sum...''))),
       (1010, poll_response ''t1'' ''failed'' (Some (agent_message ''Unknown skill: subtract'')))] =
     Some (Inl (Error_msg ''Task failed: Unknown skill: subtract''))"
  using waitForCompletion_terminal[of
      "[(5, poll_response ''t1'' ''working'' (Some (agent_message ''Calculating sum...'')))]"
      0 30000 1010 "poll_response ''t1'' ''failed'' (Some (agent_message ''Unknown skill: subtract''))"
      "\<lparr>tv_task = \<lparr>task_id = ''t1'',
                 task_status = \<lparr>st_state = ''failed'', st_timestamp = 0,
                                st_message = Some (agent_message ''Unknown skill: subtract'')\<rparr>,
                 task_artifacts = []\<rparr>,
        tv_history = None\<rparr>" "''t1''" 1000 "[]"]
  by (simp add: poll_response_def terminalStates_def status_text_def agent_message_def
        text_part_def js_or_def failure_message_def blog_log_def blog_failure_message_def)

end
